theory Spec2Isabelle
  imports Complex_Main "HOL-Library.Multiset"
begin

section \<open>Data model (models.py)\<close>

datatype TaskStatus = PENDING | RUNNING | COMPLETED | FAILED

datatype TaskPriority = LOW | MEDIUM | HIGH | URGENT

text \<open>
  A context is a Python dict from strings to arbitrary values; it is kept as the list of
  its items in insertion order, each value standing for the text that formatting it in an
  f-string gives. \<open>None\<close> is the absent context.
\<close>

record GeminiTask =
  id_t :: string
  prompt :: string
  model :: string
  priority :: TaskPriority
  status :: TaskStatus
  result :: "string option"
  error :: "string option"
  context_t :: "(string \<times> string) list option"

record TaskBatch =
  id_b :: string
  tasks :: "GeminiTask list"
  parallel :: bool

record TaskResult =
  task_id :: string
  status_r :: TaskStatus
  result_r :: "string option"
  error_r :: "string option"
  execution_time :: "real option"

record BatchResult =
  batch_id :: string
  completed_tasks :: int
  failed_tasks :: int
  total_tasks :: int
  results :: "TaskResult list"
  total_time :: real

section \<open>The environment of the program\<close>

text \<open>
  The exceptions the code distinguishes: the quota signal of the remote service, the
  \<open>ValueError\<close> of the standard library, and any other \<open>Exception\<close>; each carries the text
  that \<open>str\<close> gives.
\<close>

datatype exn = ResourceExhausted string | ValueError string | Exception string

fun str_exn :: "exn \<Rightarrow> string" where
  "str_exn (ResourceExhausted m) = m"
| "str_exn (ValueError m) = m"
| "str_exn (Exception m) = m"

text \<open>
  What the program does not decide is read from an environment: the identifiers that
  \<open>uuid.uuid4\<close> draws, the readings of \<open>time.time\<close>, and the answer of the remote service
  to a call, which may depend on every call made so far (the last entry of the log is the
  call being answered: model name and prompt). An answer is the response text or the
  exception raised in its place. Clock readings are real numbers, so a difference of two
  readings is exact here; the rounding of Python's floats is not part of the model.
\<close>

record env =
  uuid4 :: "nat \<Rightarrow> string"
  clock :: "nat \<Rightarrow> real"
  remote :: "(string \<times> string) list \<Rightarrow> exn + string"

text \<open>
  The mutable world: how many identifiers and clock readings have been drawn, the log of
  remote calls, and the names in the model cache of the client (\<open>GeminiClient.models\<close>).
\<close>

record world =
  uuids :: nat
  ticks :: nat
  calls :: "(string \<times> string) list"
  models :: "string set"

definition str_uuid4 :: "env \<Rightarrow> world \<Rightarrow> string \<times> world" where
  "str_uuid4 e w = (uuid4 e (uuids w), w\<lparr>uuids := Suc (uuids w)\<rparr>)"

definition time_time :: "env \<Rightarrow> world \<Rightarrow> real \<times> world" where
  "time_time e w = (clock e (ticks w), w\<lparr>ticks := Suc (ticks w)\<rparr>)"

definition generate_content :: "env \<Rightarrow> world \<Rightarrow> string \<Rightarrow> string \<Rightarrow> (exn + string) \<times> world" where
  "generate_content e w model_name full_prompt =
     (let log = calls w @ [(model_name, full_prompt)]
      in (remote e log, w\<lparr>calls := log\<rparr>))"

section \<open>The client (gemini_client.py)\<close>

definition get_model :: "world \<Rightarrow> string \<Rightarrow> string \<times> world" where
  "get_model w model_name =
     (if model_name \<notin> models w
      then (model_name, w\<lparr>models := insert model_name (models w)\<rparr>)
      else (model_name, w))"

text \<open>\<open>sep.join(xs)\<close> of Python.\<close>

fun join :: "string \<Rightarrow> string list \<Rightarrow> string" where
  "join sep [] = []"
| "join sep [x] = x"
| "join sep (x # y # ys) = x @ sep @ join sep (y # ys)"

abbreviation newline :: string where
  "newline \<equiv> [CHR 0x0A]"

abbreviation flash :: string where
  "flash \<equiv> ''gemini-2.5-flash''"

text \<open>Lines 47 to 51: the prompt with the context in front, when there is one.\<close>

definition build_prompt :: "GeminiTask \<Rightarrow> string" where
  "build_prompt task =
     (case context_t task of
        None \<Rightarrow> prompt task
      | Some items \<Rightarrow>
          if items = [] then prompt task
          else (let context_str = join newline (map (\<lambda>(k, v). k @ '': '' @ v) items)
                in context_str @ newline @ prompt task))"

text \<open>
  The body of the \<open>try\<close> up to line 58: fetch the model, build the prompt, call the
  service and read the text of the response. It yields the text, or the exception that
  leaves the body.
\<close>

definition try_body :: "env \<Rightarrow> world \<Rightarrow> GeminiTask \<Rightarrow> (exn + string) \<times> world" where
  "try_body e w task =
     (let (m, w1) = get_model w (model task);
          full_prompt = build_prompt task
      in generate_content e w1 m full_prompt)"

text \<open>
  \<open>execute_task\<close>, lines 39 to 97. The task is mutated in place by the code, so the model
  returns it with the world and the \<open>TaskResult\<close>. The handlers follow the order of the
  \<open>except\<close> clauses: the quota signal first, every other exception after it.
\<close>

function execute_task :: "env \<Rightarrow> world \<Rightarrow> GeminiTask \<Rightarrow> world \<times> GeminiTask \<times> TaskResult" where
  "execute_task e w task =
     (let (start_time, w1) = time_time e w;
          task1 = task\<lparr>status := RUNNING\<rparr>;
          (response, w2) = try_body e w1 task1
      in case response of
           Inr text \<Rightarrow>
             (let (now, w3) = time_time e w2;
                  execution_time = now - start_time;
                  task2 = task1\<lparr>status := COMPLETED, result := Some text\<rparr>
              in (w3, task2,
                  \<lparr>task_id = id_t task2, status_r = COMPLETED, result_r = Some text,
                   error_r = None, execution_time = Some execution_time\<rparr>))
         | Inl (ResourceExhausted m) \<Rightarrow>
             if model task1 \<noteq> flash
             then execute_task e w2 (task1\<lparr>model := flash\<rparr>)
             else (let error_msg = ''Quota exceeded for both Pro and Flash models'';
                       task2 = task1\<lparr>status := FAILED, error := Some error_msg\<rparr>;
                       (now, w3) = time_time e w2
                   in (w3, task2,
                       \<lparr>task_id = id_t task2, status_r = FAILED, result_r = None,
                        error_r = Some error_msg, execution_time = Some (now - start_time)\<rparr>))
         | Inl ex \<Rightarrow>
             (let error_msg = ''Task execution failed: '' @ str_exn ex;
                  task2 = task1\<lparr>status := FAILED, error := Some error_msg\<rparr>;
                  (now, w3) = time_time e w2
              in (w3, task2,
                  \<lparr>task_id = id_t task2, status_r = FAILED, result_r = None,
                   error_r = Some error_msg, execution_time = Some (now - start_time)\<rparr>)))"
  by pat_completeness auto
termination
  by (relation "measure (\<lambda>(e, w, task). if model task = flash then 0 else 1)") auto

declare execute_task.simps [simp del]


text \<open>
  \<open>execute_tasks_sequential\<close>, lines 127 to 133: one task after the other, in input order.
\<close>

fun execute_tasks_sequential ::
    "env \<Rightarrow> world \<Rightarrow> GeminiTask list \<Rightarrow> world \<times> GeminiTask list \<times> TaskResult list" where
  "execute_tasks_sequential e w [] = (w, [], [])"
| "execute_tasks_sequential e w (task # rest) =
     (let (w1, task1, r) = execute_task e w task;
          (w2, rest1, rs) = execute_tasks_sequential e w1 rest
      in (w2, task1 # rest1, r # rs))"

subsection \<open>Parallel execution\<close>

text \<open>
  Under \<open>asyncio.gather\<close> every task runs as a coroutine that is suspended at two places
  only: at the semaphore and at the \<open>await\<close> of the remote call (line 54). So
  \<open>execute_task\<close> is cut at that \<open>await\<close>: \<open>begin_task\<close> is the part before it (lines 41 to
  56), \<open>resume_task\<close> the part after it (lines 58 to 97), which yields no \<open>TaskResult\<close>
  where the handler of line 75 calls \<open>execute_task\<close> again.
\<close>

definition begin_task ::
    "env \<Rightarrow> world \<Rightarrow> GeminiTask \<Rightarrow> world \<times> GeminiTask \<times> real \<times> (exn + string)" where
  "begin_task e w task =
     (let (start_time, w1) = time_time e w;
          task1 = task\<lparr>status := RUNNING\<rparr>;
          (response, w2) = try_body e w1 task1
      in (w2, task1, start_time, response))"

definition resume_task ::
    "env \<Rightarrow> world \<Rightarrow> GeminiTask \<Rightarrow> real \<Rightarrow> exn + string
       \<Rightarrow> world \<times> GeminiTask \<times> TaskResult option" where
  "resume_task e w2 task1 start_time response =
     (case response of
        Inr text \<Rightarrow>
          (let (now, w3) = time_time e w2;
               execution_time = now - start_time;
               task2 = task1\<lparr>status := COMPLETED, result := Some text\<rparr>
           in (w3, task2,
               Some \<lparr>task_id = id_t task2, status_r = COMPLETED, result_r = Some text,
                     error_r = None, execution_time = Some execution_time\<rparr>))
      | Inl (ResourceExhausted m) \<Rightarrow>
          if model task1 \<noteq> flash
          then (w2, task1\<lparr>model := flash\<rparr>, None)
          else (let error_msg = ''Quota exceeded for both Pro and Flash models'';
                    task2 = task1\<lparr>status := FAILED, error := Some error_msg\<rparr>;
                    (now, w3) = time_time e w2
                in (w3, task2,
                    Some \<lparr>task_id = id_t task2, status_r = FAILED, result_r = None,
                          error_r = Some error_msg,
                          execution_time = Some (now - start_time)\<rparr>))
      | Inl ex \<Rightarrow>
          (let error_msg = ''Task execution failed: '' @ str_exn ex;
               task2 = task1\<lparr>status := FAILED, error := Some error_msg\<rparr>;
               (now, w3) = time_time e w2
           in (w3, task2,
               Some \<lparr>task_id = id_t task2, status_r = FAILED, result_r = None,
                     error_r = Some error_msg,
                     execution_time = Some (now - start_time)\<rparr>)))"

text \<open>
  The state of one coroutine \<open>execute_with_limit(task)\<close>: waiting for the semaphore; woken
  with a permit and not yet run; suspended at the remote call, with the \<open>start_time\<close> of
  the running \<open>execute_task\<close> and the answer the call will deliver; or over, with the value
  it returned or the exception it raised.
\<close>

datatype coroutine =
    Blocked
  | Ready
  | Awaiting real "exn + string"
  | Finished "exn + TaskResult"

record pstate =
  world_p :: world
  tasks_p :: "GeminiTask list"
  coros :: "coroutine list"
  sem_value :: nat

definition start :: "env \<Rightarrow> pstate \<Rightarrow> nat \<Rightarrow> pstate" where
  "start e st i =
     (let (w, task, start_time, response) = begin_task e (world_p st) (tasks_p st ! i)
      in st\<lparr>world_p := w, tasks_p := (tasks_p st)[i := task],
             coros := (coros st)[i := Awaiting start_time response]\<rparr>)"

text \<open>
  The first run of coroutine \<open>i\<close>: it takes a permit and runs to its remote call, or it
  queues at the semaphore.
\<close>

definition admit :: "env \<Rightarrow> nat \<Rightarrow> pstate \<Rightarrow> pstate" where
  "admit e i st =
     (if 0 < sem_value st then start e (st\<lparr>sem_value := sem_value st - 1\<rparr>) i
      else st\<lparr>coros := (coros st)[i := Blocked]\<rparr>)"

fun first_blocked :: "coroutine list \<Rightarrow> nat option" where
  "first_blocked [] = None"
| "first_blocked (c # cs) =
     (if c = Blocked then Some 0 else map_option Suc (first_blocked cs))"

text \<open>
  Leaving \<open>async with semaphore\<close>: the permit goes to the longest waiting coroutine, which
  is the one of least index, or back to the semaphore when nobody waits.
\<close>

definition release :: "pstate \<Rightarrow> pstate" where
  "release st =
     (case first_blocked (coros st) of
        None \<Rightarrow> st\<lparr>sem_value := sem_value st + 1\<rparr>
      | Some j \<Rightarrow> st\<lparr>coros := (coros st)[j := Ready]\<rparr>)"

text \<open>
  One turn of the event loop for coroutine \<open>i\<close>: a woken coroutine runs to its remote call;
  a suspended one receives the answer of its call and runs to its next suspension or to
  its end. A turn for a coroutine that cannot run changes nothing.
\<close>

definition run_step :: "env \<Rightarrow> nat \<Rightarrow> pstate \<Rightarrow> pstate" where
  "run_step e i st =
     (if i < length (coros st) then
        (case coros st ! i of
           Ready \<Rightarrow> start e st i
         | Awaiting start_time response \<Rightarrow>
             (case resume_task e (world_p st) (tasks_p st ! i) start_time response of
                (w, task, Some r) \<Rightarrow>
                  release (st\<lparr>world_p := w, tasks_p := (tasks_p st)[i := task],
                               coros := (coros st)[i := Finished (Inr r)]\<rparr>)
              | (w, task, None) \<Rightarrow>
                  start e (st\<lparr>world_p := w, tasks_p := (tasks_p st)[i := task]\<rparr>) i)
         | _ \<Rightarrow> st)
      else st)"

text \<open>
  \<open>asyncio.gather(..., return_exceptions=True)\<close> returns once every coroutine is over, with
  their values and exceptions in the order of the coroutines.
\<close>

fun gather :: "coroutine list \<Rightarrow> (exn + TaskResult) list option" where
  "gather [] = Some []"
| "gather (Finished x # cs) = map_option ((#) x) (gather cs)"
| "gather (c # cs) = None"

text \<open>
  Lines 114 to 125: an exception among the gathered values becomes a \<open>FAILED\<close> result for
  the task at the same index. No coroutine of this model ends with an exception, since
  \<open>execute_task\<close> turns every exception of the remote call into a result; the branch is
  kept as the code has it.
\<close>

definition final_results :: "GeminiTask list \<Rightarrow> (exn + TaskResult) list \<Rightarrow> TaskResult list" where
  "final_results ts rs =
     map (\<lambda>(i, r). case r of
                      Inl ex \<Rightarrow> \<lparr>task_id = id_t (ts ! i), status_r = FAILED, result_r = None,
                                 error_r = Some (str_exn ex), execution_time = None\<rparr>
                    | Inr res \<Rightarrow> res)
         (enumerate 0 rs)"

text \<open>
  \<open>execute_tasks_parallel\<close>, lines 99 to 125. The schedule lists, turn by turn, the
  coroutine that the event loop runs next; it stands for the order in which the remote
  calls come back. The first turn of every coroutine is taken in input order before any
  call comes back. The value is \<open>None\<close> when the schedule ends with a coroutine still
  waiting: \<open>gather\<close> does not return then. A negative \<open>max_concurrent\<close> makes
  \<open>asyncio.Semaphore\<close> raise.
\<close>

definition execute_tasks_parallel ::
    "env \<Rightarrow> nat list \<Rightarrow> world \<Rightarrow> GeminiTask list \<Rightarrow> int
       \<Rightarrow> (world \<times> GeminiTask list \<times> (exn + TaskResult list)) option" where
  "execute_tasks_parallel e sched w ts max_conc =
     (if max_conc < 0
      then Some (w, ts, Inl (ValueError ''Semaphore initial value must be >= 0''))
      else
        (let st0 = \<lparr>world_p = w, tasks_p = ts, coros = replicate (length ts) Blocked,
                    sem_value = nat max_conc\<rparr>;
             st1 = fold (admit e) [0..<length ts] st0;
             st2 = fold (run_step e) sched st1
         in case gather (coros st2) of
              None \<Rightarrow> None
            | Some rs \<Rightarrow> Some (world_p st2, tasks_p st2, Inr (final_results (tasks_p st2) rs))))"

section \<open>The orchestrator (orchestrator.py)\<close>

record TaskOrchestrator =
  max_concurrent :: int
  active_batches :: "string \<rightharpoonup> TaskBatch"
  completed_batches :: "string \<rightharpoonup> BatchResult"

definition create_task ::
    "env \<Rightarrow> world \<Rightarrow> string \<Rightarrow> string \<Rightarrow> TaskPriority \<Rightarrow> (string \<times> string) list option
       \<Rightarrow> GeminiTask \<times> world" where
  "create_task e w prompt_text model_name prio ctx =
     (let (u, w1) = str_uuid4 e w;
          task_id = take 8 u
      in (\<lparr>id_t = task_id, prompt = prompt_text, model = model_name, priority = prio,
           status = PENDING, result = None, error = None, context_t = ctx\<rparr>, w1))"

definition create_batch ::
    "env \<Rightarrow> TaskOrchestrator \<Rightarrow> world \<Rightarrow> GeminiTask list \<Rightarrow> bool
       \<Rightarrow> TaskBatch \<times> TaskOrchestrator \<times> world" where
  "create_batch e orch w ts par =
     (let (u, w1) = str_uuid4 e w;
          batch_id = take 8 u;
          batch = \<lparr>id_b = batch_id, tasks = ts, parallel = par\<rparr>
      in (batch, orch\<lparr>active_batches := (active_batches orch)(batch_id \<mapsto> batch)\<rparr>, w1))"

text \<open>
  \<open>list(TaskPriority)\<close> lists the members in the order of their definition, and
  \<open>xs.index(x)\<close> is the first position of \<open>x\<close>. Python raises where \<open>x\<close> does not occur;
  every priority occurs in the list, so that the length returned here for a missing
  element is never the key of a task.
\<close>

definition list_TaskPriority :: "TaskPriority list" where
  "list_TaskPriority = [LOW, MEDIUM, HIGH, URGENT]"

fun index :: "'a list \<Rightarrow> 'a \<Rightarrow> nat" where
  "index [] y = 0"
| "index (x # xs) y = (if x = y then 0 else Suc (index xs y))"

text \<open>
  \<open>sorted(xs, key=..., reverse=...)\<close>: a stable sort; with \<open>reverse\<close> the list is reversed
  before and after a stable ascending sort, which is how CPython keeps equal keys in
  their original order.
\<close>

definition sorted_py :: "('a \<Rightarrow> nat) \<Rightarrow> bool \<Rightarrow> 'a list \<Rightarrow> 'a list" where
  "sorted_py key reverse xs =
     (if reverse then rev (sort_key key (rev xs)) else sort_key key xs)"

text \<open>Lines 55 to 59 of \<open>execute_batch\<close>.\<close>

definition sorted_tasks :: "TaskBatch \<Rightarrow> GeminiTask list" where
  "sorted_tasks batch =
     sorted_py (\<lambda>t. index list_TaskPriority (priority t)) True (tasks batch)"

text \<open>
  \<open>execute_batch\<close>, lines 50 to 87. The tasks that the execution mutates are reachable
  through the batch only, and nothing below reads them again, so they are not returned.
  An exception of the parallel path leaves \<open>execute_batch\<close> before the registries are
  touched; \<open>None\<close> is an execution that does not return.
\<close>

definition execute_batch ::
    "env \<Rightarrow> nat list \<Rightarrow> TaskOrchestrator \<Rightarrow> world \<Rightarrow> TaskBatch
       \<Rightarrow> (TaskOrchestrator \<times> world \<times> (exn + BatchResult)) option" where
  "execute_batch e sched orch w batch =
     (let (start_time, w1) = time_time e w;
          sorted = sorted_tasks batch
      in case (if parallel batch
               then execute_tasks_parallel e sched w1 sorted (max_concurrent orch)
               else (let (w2, ts, rs) = execute_tasks_sequential e w1 sorted
                     in Some (w2, ts, Inr rs))) of
           None \<Rightarrow> None
         | Some (w2, ts, Inl ex) \<Rightarrow> Some (orch, w2, Inl ex)
         | Some (w2, ts, Inr rs) \<Rightarrow>
             (let completed = sum_list (map (\<lambda>r. 1) (filter (\<lambda>r. status_r r = COMPLETED) rs));
                  failed = sum_list (map (\<lambda>r. 1) (filter (\<lambda>r. status_r r = FAILED) rs));
                  (now, w3) = time_time e w2;
                  total = now - start_time;
                  batch_result = \<lparr>batch_id = id_b batch, completed_tasks = completed,
                                  failed_tasks = failed, total_tasks = int (length rs),
                                  results = rs, total_time = total\<rparr>;
                  active = (if active_batches orch (id_b batch) \<noteq> None
                            then (active_batches orch)(id_b batch := None)
                            else active_batches orch)
              in Some (orch\<lparr>active_batches := active,
                             completed_batches :=
                               (completed_batches orch)(id_b batch \<mapsto> batch_result)\<rparr>,
                       w3, Inr batch_result)))"

definition execute_single_task ::
    "env \<Rightarrow> world \<Rightarrow> GeminiTask \<Rightarrow> world \<times> GeminiTask \<times> TaskResult" where
  "execute_single_task e w task = execute_task e w task"

text \<open>An optional text inside an f-string.\<close>

fun fmt_opt :: "string option \<Rightarrow> string" where
  "fmt_opt None = ''None''"
| "fmt_opt (Some s) = s"

text \<open>
  \<open>quick_ask\<close>, lines 93 to 106. It returns \<open>result.result\<close>, an optional text, or raises.
\<close>

definition quick_ask ::
    "env \<Rightarrow> TaskOrchestrator \<Rightarrow> world \<Rightarrow> string \<Rightarrow> string \<Rightarrow> (string \<times> string) list option
       \<Rightarrow> TaskOrchestrator \<times> world \<times> (exn + string option)" where
  "quick_ask e orch w prompt_text model_name ctx =
     (let (task, w1) = create_task e w prompt_text model_name MEDIUM ctx;
          (w2, task1, res) = execute_single_task e w1 task
      in if status_r res = COMPLETED
         then (orch, w2, Inr (result_r res))
         else (orch, w2, Inl (Exception (''Task failed: '' @ fmt_opt (error_r res)))))"

text \<open>The list comprehension of lines 115 to 118.\<close>

fun create_tasks ::
    "env \<Rightarrow> world \<Rightarrow> string list \<Rightarrow> string \<Rightarrow> (string \<times> string) list option
       \<Rightarrow> GeminiTask list \<times> world" where
  "create_tasks e w [] model_name ctx = ([], w)"
| "create_tasks e w (p # ps) model_name ctx =
     (let (task, w1) = create_task e w p model_name MEDIUM ctx;
          (ts, w2) = create_tasks e w1 ps model_name ctx
      in (task # ts, w2))"

text \<open>The loop of lines 124 to 129, with the list built so far.\<close>

fun collect_results :: "TaskResult list \<Rightarrow> string option list \<Rightarrow> exn + string option list" where
  "collect_results [] acc = Inr acc"
| "collect_results (r # rs) acc =
     (if status_r r = COMPLETED then collect_results rs (acc @ [result_r r])
      else Inl (Exception (''Task '' @ task_id r @ '' failed: '' @ fmt_opt (error_r r))))"

text \<open>\<open>parallel_ask\<close>, lines 108 to 131.\<close>

definition parallel_ask ::
    "env \<Rightarrow> nat list \<Rightarrow> TaskOrchestrator \<Rightarrow> world \<Rightarrow> string list \<Rightarrow> string
       \<Rightarrow> (string \<times> string) list option
       \<Rightarrow> (TaskOrchestrator \<times> world \<times> (exn + string option list)) option" where
  "parallel_ask e sched orch w prompts model_name ctx =
     (let (ts, w1) = create_tasks e w prompts model_name ctx;
          (batch, orch1, w2) = create_batch e orch w1 ts True
      in case execute_batch e sched orch1 w2 batch of
           None \<Rightarrow> None
         | Some (orch2, w3, Inl ex) \<Rightarrow> Some (orch2, w3, Inl ex)
         | Some (orch2, w3, Inr batch_result) \<Rightarrow>
             Some (orch2, w3, collect_results (results batch_result) []))"

text \<open>
  \<open>get_batch_status\<close>, lines 133 to 153: the active registry is looked up first, the
  completed one after it. The dictionary it returns has one of two shapes, told apart by
  its \<open>status\<close> entry.
\<close>

datatype batch_status =
    ActiveStatus string nat bool
  | CompletedStatus string int int int real

fun status_entry :: "batch_status \<Rightarrow> string" where
  "status_entry (ActiveStatus b n p) = ''active''"
| "status_entry (CompletedStatus b c f n t) = ''completed''"

definition get_batch_status :: "TaskOrchestrator \<Rightarrow> string \<Rightarrow> batch_status option" where
  "get_batch_status orch bid =
     (if active_batches orch bid \<noteq> None then
        (case active_batches orch bid of
           Some batch \<Rightarrow> Some (ActiveStatus bid (length (tasks batch)) (parallel batch))
         | None \<Rightarrow> None)
      else if completed_batches orch bid \<noteq> None then
        (case completed_batches orch bid of
           Some res \<Rightarrow> Some (CompletedStatus bid (completed_tasks res) (failed_tasks res)
                                (total_tasks res) (total_time res))
         | None \<Rightarrow> None)
      else None)"

section \<open>Invariants\<close>

text \<open>
  Two predicates used to state invariants. A \<open>TaskResult\<close> is settled when it is
  \<open>COMPLETED\<close> with a result text and no error, or \<open>FAILED\<close> with an error text and no
  result. A state of the parallel execution is aligned with the input tasks when task
  \<open>i\<close> still carries the identifier of input \<open>i\<close> and a coroutine that is over holds a
  settled result for input \<open>i\<close>.
\<close>

definition settled :: "TaskResult \<Rightarrow> bool" where
  "settled r \<longleftrightarrow>
     (status_r r = COMPLETED \<and> result_r r \<noteq> None \<and> error_r r = None) \<or>
     (status_r r = FAILED \<and> error_r r \<noteq> None \<and> result_r r = None)"

definition aligned :: "GeminiTask list \<Rightarrow> pstate \<Rightarrow> bool" where
  "aligned ts st \<longleftrightarrow>
     length (tasks_p st) = length ts \<and> length (coros st) = length ts \<and>
     (\<forall>i<length ts. id_t (tasks_p st ! i) = id_t (ts ! i)) \<and>
     (\<forall>i<length ts. \<forall>x. coros st ! i = Finished x \<longrightarrow>
        (\<exists>r. x = Inr r \<and> task_id r = id_t (ts ! i) \<and> settled r))"

text \<open>
  For the existence of returning runs: a schedule that gives every coroutine three turns
  in input order, and the invariant it keeps. Before the turns of coroutine \<open>i\<close> the
  coroutines below \<open>i\<close> are over, those from \<open>i\<close> up to a frontier \<open>k\<close> hold a permit, and
  those from \<open>k\<close> on wait for the semaphore.
\<close>

definition frontier :: "nat \<Rightarrow> nat \<Rightarrow> nat \<Rightarrow> pstate \<Rightarrow> bool" where
  "frontier n i k st \<longleftrightarrow>
     length (coros st) = n \<and> length (tasks_p st) = n \<and> k \<le> n \<and> (i < n \<longrightarrow> i < k) \<and>
     (\<forall>j<i. \<exists>x. coros st ! j = Finished x) \<and>
     (\<forall>j. i \<le> j \<and> j < k \<longrightarrow> coros st ! j = Ready \<or> (\<exists>s r. coros st ! j = Awaiting s r)) \<and>
     (\<forall>j. k \<le> j \<and> j < n \<longrightarrow> coros st ! j = Blocked)"

definition fifo_schedule :: "nat \<Rightarrow> nat list" where
  "fifo_schedule n = concat (map (\<lambda>i. [i, i, i]) [0..<n])"

section \<open>Concrete scenarios\<close>

text \<open>
  Small environments and inputs on which the theorems below are instantiated.
\<close>

definition world0 :: world where
  "world0 = \<lparr>uuids = 0, ticks = 0, calls = [], models = {}\<rparr>"

definition task_pro :: GeminiTask where
  "task_pro = \<lparr>id_t = ''task0001'', prompt = ''hi'', model = ''gemini-2.5-pro'',
     priority = MEDIUM, status = PENDING, result = None, error = None,
     context_t = Some [(''lang'', ''en''), (''tone'', ''dry'')]\<rparr>"

definition env_quota :: env where
  "env_quota = \<lparr>uuid4 = (\<lambda>n. ''00000000-0000-4000-8000-000000000000''),
     clock = (\<lambda>n. real (n * n)),
     remote = (\<lambda>log. Inl (ResourceExhausted ''429''))\<rparr>"

definition env_flash_only :: env where
  "env_flash_only = \<lparr>uuid4 = (\<lambda>n. ''00000000-0000-4000-8000-000000000000''),
     clock = (\<lambda>n. real (n * n)),
     remote = (\<lambda>log. if fst (last log) = flash then Inr ''pong''
                       else Inl (ResourceExhausted ''429''))\<rparr>"

definition env_broken :: env where
  "env_broken = \<lparr>uuid4 = (\<lambda>n. ''00000000-0000-4000-8000-000000000000''),
     clock = (\<lambda>n. real (n * n)),
     remote = (\<lambda>log. Inl (Exception ''503 unavailable''))\<rparr>"

definition task_plain :: GeminiTask where
  "task_plain = \<lparr>id_t = ''task0002'', prompt = ''2+2?'', model = flash,
     priority = URGENT, status = PENDING, result = None, error = None,
     context_t = Some []\<rparr>"

definition task_a :: GeminiTask where
  "task_a = \<lparr>id_t = ''aaaaaaaa'', prompt = ''a'', model = ''gemini-2.5-pro'',
     priority = MEDIUM, status = PENDING, result = None, error = None, context_t = None\<rparr>"

definition task_b :: GeminiTask where
  "task_b = \<lparr>id_t = ''bbbbbbbb'', prompt = ''b'', model = flash,
     priority = MEDIUM, status = PENDING, result = None, error = None, context_t = None\<rparr>"

definition task_c :: GeminiTask where
  "task_c = \<lparr>id_t = ''cccccccc'', prompt = ''c'', model = ''gemini-2.5-pro'',
     priority = MEDIUM, status = PENDING, result = None, error = None, context_t = None\<rparr>"

definition env_mixed :: env where
  "env_mixed = \<lparr>uuid4 = (\<lambda>n. if n = 0 then ''11111111-0000-4000-8000-000000000000''
                           else if n = 1 then ''22222222-0000-4000-8000-000000000000''
                           else if n = 2 then ''33333333-0000-4000-8000-000000000000''
                           else ''44444444-0000-4000-8000-000000000000''),
     clock = (\<lambda>n. real n),
     remote = (\<lambda>log. case last log of (m, p) \<Rightarrow>
                       if p = ''b'' then Inl (Exception ''500 internal'')
                       else if m = flash then Inr (''re: '' @ p)
                       else Inl (ResourceExhausted ''429''))\<rparr>"

definition batch_abc :: TaskBatch where
  "batch_abc = \<lparr>id_b = ''batch001'', tasks = [task_a, task_b, task_c], parallel = True\<rparr>"

definition orch0 :: TaskOrchestrator where
  "orch0 = \<lparr>max_concurrent = 2, active_batches = [''batch001'' \<mapsto> batch_abc],
     completed_batches = Map.empty\<rparr>"

definition results_abc :: "TaskResult list" where
  "results_abc =
     [\<lparr>task_id = ''aaaaaaaa'', status_r = COMPLETED, result_r = Some ''re: a'',
       error_r = None, execution_time = Some 3\<rparr>,
      \<lparr>task_id = ''bbbbbbbb'', status_r = FAILED, result_r = None,
       error_r = Some ''Task execution failed: 500 internal'', execution_time = Some 1\<rparr>,
      \<lparr>task_id = ''cccccccc'', status_r = COMPLETED, result_r = Some ''re: c'',
       error_r = None, execution_time = Some 2\<rparr>]"

definition batch_result_abc :: BatchResult where
  "batch_result_abc = \<lparr>batch_id = ''batch001'', completed_tasks = 2, failed_tasks = 1,
     total_tasks = 3, results = results_abc, total_time = 9\<rparr>"

definition world_abc :: world where
  "world_abc = \<lparr>uuids = 0, ticks = 10,
     calls = [(''gemini-2.5-pro'', ''a''), (flash, ''b''), (flash, ''a''),
              (''gemini-2.5-pro'', ''c''), (flash, ''c'')],
     models = {flash, ''gemini-2.5-pro''}\<rparr>"

definition task_low :: GeminiTask where
  "task_low = \<lparr>id_t = ''t-low000'', prompt = ''low'', model = flash,
     priority = LOW, status = PENDING, result = None, error = None, context_t = None\<rparr>"

definition task_urgent1 :: GeminiTask where
  "task_urgent1 = \<lparr>id_t = ''t-urg001'', prompt = ''urgent 1'', model = flash,
     priority = URGENT, status = PENDING, result = None, error = None, context_t = None\<rparr>"

definition task_medium :: GeminiTask where
  "task_medium = \<lparr>id_t = ''t-med000'', prompt = ''medium'', model = flash,
     priority = MEDIUM, status = PENDING, result = None, error = None, context_t = None\<rparr>"

definition task_urgent2 :: GeminiTask where
  "task_urgent2 = \<lparr>id_t = ''t-urg002'', prompt = ''urgent 2'', model = flash,
     priority = URGENT, status = PENDING, result = None, error = None, context_t = None\<rparr>"

definition batch_prio :: TaskBatch where
  "batch_prio = \<lparr>id_b = ''batch002'',
     tasks = [task_low, task_urgent1, task_medium, task_urgent2], parallel = False\<rparr>"

definition task_ask :: "string \<Rightarrow> string \<Rightarrow> GeminiTask" where
  "task_ask i p = \<lparr>id_t = i, prompt = p, model = ''gemini-2.5-pro'', priority = MEDIUM,
     status = PENDING, result = None, error = None, context_t = None\<rparr>"

definition results_ask3 :: "TaskResult list" where
  "results_ask3 =
     [\<lparr>task_id = ''11111111'', status_r = COMPLETED, result_r = Some ''re: a'',
       error_r = None, execution_time = Some 3\<rparr>,
      \<lparr>task_id = ''22222222'', status_r = FAILED, result_r = None,
       error_r = Some ''Task execution failed: 500 internal'', execution_time = Some 2\<rparr>,
      \<lparr>task_id = ''33333333'', status_r = COMPLETED, result_r = Some ''re: c'',
       error_r = None, execution_time = Some 1\<rparr>]"

definition results_ask2 :: "TaskResult list" where
  "results_ask2 =
     [\<lparr>task_id = ''11111111'', status_r = COMPLETED, result_r = Some ''re: a'',
       error_r = None, execution_time = Some 2\<rparr>,
      \<lparr>task_id = ''22222222'', status_r = COMPLETED, result_r = Some ''re: c'',
       error_r = None, execution_time = Some 2\<rparr>]"

section \<open>Properties of \<open>execute_task\<close>\<close>

lemma try_body_eq:
  "try_body e w task =
     (remote e (calls w @ [(model task, build_prompt task)]),
      w\<lparr>calls := calls w @ [(model task, build_prompt task)],
        models := insert (model task) (models w)\<rparr>)"
  by (simp add: try_body_def get_model_def generate_content_def Let_def insert_absorb)

lemma build_prompt_update [simp]:
  "build_prompt (task\<lparr>status := s\<rparr>) = build_prompt task"
  "build_prompt (task\<lparr>model := m\<rparr>) = build_prompt task"
  by (simp_all add: build_prompt_def split: option.splits)

lemma begin_task_eq:
  "begin_task e w task =
     (w\<lparr>ticks := Suc (ticks w),
        calls := calls w @ [(model task, build_prompt task)],
        models := insert (model task) (models w)\<rparr>,
      task\<lparr>status := RUNNING\<rparr>, clock e (ticks w),
      remote e (calls w @ [(model task, build_prompt task)]))"
  by (simp add: begin_task_def time_time_def try_body_eq Let_def)

lemma execute_task_cut:
  "execute_task e w task =
     (case begin_task e w task of
        (w2, task1, start_time, response) \<Rightarrow>
          (case resume_task e w2 task1 start_time response of
             (w3, task2, Some r) \<Rightarrow> (w3, task2, r)
           | (w3, task2, None) \<Rightarrow> execute_task e w3 task2))"
  apply (subst execute_task.simps)
  apply (simp add: begin_task_def resume_task_def Let_def split: prod.splits sum.splits exn.splits)
  done


lemma resume_task_text:
  "resume_task e w2 task1 st (Inr text) =
     (w2\<lparr>ticks := Suc (ticks w2)\<rparr>, task1\<lparr>status := COMPLETED, result := Some text\<rparr>,
      Some \<lparr>task_id = id_t task1, status_r = COMPLETED, result_r = Some text,
            error_r = None, execution_time = Some (clock e (ticks w2) - st)\<rparr>)"
  by (simp add: resume_task_def time_time_def Let_def)

lemma resume_task_quota_flash:
  "model task1 = flash \<Longrightarrow>
   resume_task e w2 task1 st (Inl (ResourceExhausted m)) =
     (w2\<lparr>ticks := Suc (ticks w2)\<rparr>,
      task1\<lparr>status := FAILED, error := Some ''Quota exceeded for both Pro and Flash models''\<rparr>,
      Some \<lparr>task_id = id_t task1, status_r = FAILED, result_r = None,
            error_r = Some ''Quota exceeded for both Pro and Flash models'',
            execution_time = Some (clock e (ticks w2) - st)\<rparr>)"
  by (simp add: resume_task_def time_time_def Let_def)

lemma resume_task_quota_retry:
  "model task1 \<noteq> flash \<Longrightarrow>
   resume_task e w2 task1 st (Inl (ResourceExhausted m)) = (w2, task1\<lparr>model := flash\<rparr>, None)"
  by (simp add: resume_task_def)

lemma resume_task_other:
  "\<forall>m. ex \<noteq> ResourceExhausted m \<Longrightarrow>
   resume_task e w2 task1 st (Inl ex) =
     (w2\<lparr>ticks := Suc (ticks w2)\<rparr>,
      task1\<lparr>status := FAILED, error := Some (''Task execution failed: '' @ str_exn ex)\<rparr>,
      Some \<lparr>task_id = id_t task1, status_r = FAILED, result_r = None,
            error_r = Some (''Task execution failed: '' @ str_exn ex),
            execution_time = Some (clock e (ticks w2) - st)\<rparr>)"
  by (cases ex) (simp_all add: resume_task_def time_time_def Let_def)

lemma execute_task_text:
  assumes "remote e (calls w @ [(model task, build_prompt task)]) = Inr text"
  shows "execute_task e w task =
     (w\<lparr>ticks := Suc (Suc (ticks w)),
        calls := calls w @ [(model task, build_prompt task)],
        models := insert (model task) (models w)\<rparr>,
      task\<lparr>status := COMPLETED, result := Some text\<rparr>,
      \<lparr>task_id = id_t task, status_r = COMPLETED, result_r = Some text, error_r = None,
       execution_time = Some (clock e (Suc (ticks w)) - clock e (ticks w))\<rparr>)"
  by (subst execute_task_cut) (simp add: begin_task_eq assms resume_task_text)

lemma execute_task_quota_flash:
  assumes "remote e (calls w @ [(model task, build_prompt task)]) = Inl (ResourceExhausted m)"
    and "model task = flash"
  shows "execute_task e w task =
     (w\<lparr>ticks := Suc (Suc (ticks w)),
        calls := calls w @ [(model task, build_prompt task)],
        models := insert (model task) (models w)\<rparr>,
      task\<lparr>status := FAILED, error := Some ''Quota exceeded for both Pro and Flash models''\<rparr>,
      \<lparr>task_id = id_t task, status_r = FAILED, result_r = None,
       error_r = Some ''Quota exceeded for both Pro and Flash models'',
       execution_time = Some (clock e (Suc (ticks w)) - clock e (ticks w))\<rparr>)"
  using assms by (subst execute_task_cut) (simp add: begin_task_eq resume_task_quota_flash)

lemma execute_task_other:
  assumes "remote e (calls w @ [(model task, build_prompt task)]) = Inl ex"
    and "\<forall>m. ex \<noteq> ResourceExhausted m"
  shows "execute_task e w task =
     (w\<lparr>ticks := Suc (Suc (ticks w)),
        calls := calls w @ [(model task, build_prompt task)],
        models := insert (model task) (models w)\<rparr>,
      task\<lparr>status := FAILED, error := Some (''Task execution failed: '' @ str_exn ex)\<rparr>,
      \<lparr>task_id = id_t task, status_r = FAILED, result_r = None,
       error_r = Some (''Task execution failed: '' @ str_exn ex),
       execution_time = Some (clock e (Suc (ticks w)) - clock e (ticks w))\<rparr>)"
  by (subst execute_task_cut) (simp add: begin_task_eq assms resume_task_other)

lemma execute_task_quota_retry:
  assumes "remote e (calls w @ [(model task, build_prompt task)]) = Inl (ResourceExhausted m)"
    and "model task \<noteq> flash"
  shows "execute_task e w task =
     execute_task e
       (w\<lparr>ticks := Suc (ticks w),
          calls := calls w @ [(model task, build_prompt task)],
          models := insert (model task) (models w)\<rparr>)
       (task\<lparr>status := RUNNING, model := flash\<rparr>)"
  by (subst execute_task_cut) (simp add: begin_task_eq assms resume_task_quota_retry)

lemma execute_task_retry_facts:
  assumes "remote e (calls w @ [(model task, build_prompt task)]) = Inl (ResourceExhausted m)"
    and "model task \<noteq> flash"
  shows "calls (fst (execute_task e w task)) =
           calls w @ [(model task, build_prompt task), (flash, build_prompt task)] \<and>
         model (fst (snd (execute_task e w task))) = flash \<and>
         ticks (fst (execute_task e w task)) = ticks w + 3 \<and>
         execution_time (snd (snd (execute_task e w task))) =
           Some (clock e (ticks w + 2) - clock e (ticks w + 1)) \<and>
         task_id (snd (snd (execute_task e w task))) = id_t task"
    (is "?G")
proof -
  let ?w1 = "w\<lparr>ticks := Suc (ticks w),
          calls := calls w @ [(model task, build_prompt task)],
          models := insert (model task) (models w)\<rparr>"
  let ?t1 = "task\<lparr>status := RUNNING, model := flash\<rparr>"
  have step: "execute_task e w task = execute_task e ?w1 ?t1"
    using assms by (rule execute_task_quota_retry)
  show ?G
  proof (cases "remote e (calls ?w1 @ [(model ?t1, build_prompt ?t1)])")
    case (Inr reply)
    show ?thesis
      unfolding step execute_task_text [OF Inr] by (simp add: numeral_2_eq_2)
  next
    case (Inl ex)
    show ?thesis
    proof (cases "\<exists>m'. ex = ResourceExhausted m'")
      case True
      then obtain m' where "ex = ResourceExhausted m'" by blast
      with Inl have q: "remote e (calls ?w1 @ [(model ?t1, build_prompt ?t1)])
          = Inl (ResourceExhausted m')"
        by simp
      have f: "model ?t1 = flash" by simp
      show ?thesis
        unfolding step execute_task_quota_flash [OF q f] by (simp add: numeral_2_eq_2)
    next
      case False
      then have ne: "\<forall>m'. ex \<noteq> ResourceExhausted m'" by blast
      show ?thesis
        unfolding step execute_task_other [OF Inl ne] by (simp add: numeral_2_eq_2)
    qed
  qed
qed


lemma execute_task_single:
  assumes "\<forall>m. remote e (calls w @ [(model task, build_prompt task)]) = Inl (ResourceExhausted m)
             \<longrightarrow> model task = flash"
  shows "case execute_task e w task of (w', task', r) \<Rightarrow>
           calls w' = calls w @ [(model task, build_prompt task)] \<and>
           ticks w' = ticks w + 2 \<and>
           task_id r = id_t task \<and> model task' = model task \<and>
           execution_time r = Some (clock e (ticks w + 1) - clock e (ticks w)) \<and>
           (case remote e (calls w') of
              Inr reply \<Rightarrow>
                status_r r = COMPLETED \<and> result_r r = Some reply \<and> error_r r = None \<and>
                status task' = COMPLETED \<and> result task' = Some reply
            | Inl ex \<Rightarrow>
                status_r r = FAILED \<and> result_r r = None \<and>
                error_r r = Some (case ex of
                                    ResourceExhausted m \<Rightarrow>
                                      ''Quota exceeded for both Pro and Flash models''
                                  | _ \<Rightarrow> ''Task execution failed: '' @ str_exn ex) \<and>
                status task' = FAILED \<and> error task' = error_r r)"
proof (cases "remote e (calls w @ [(model task, build_prompt task)])")
  case (Inr reply)
  show ?thesis
    unfolding execute_task_text [OF Inr] using Inr by simp
next
  case (Inl ex)
  show ?thesis
  proof (cases "\<exists>m'. ex = ResourceExhausted m'")
    case True
    then obtain m' where ex: "ex = ResourceExhausted m'" by blast
    with Inl have q: "remote e (calls w @ [(model task, build_prompt task)])
        = Inl (ResourceExhausted m')"
      by simp
    from assms q have f: "model task = flash" by blast
    show ?thesis
      unfolding execute_task_quota_flash [OF q f] using q by simp
  next
    case False
    then have ne: "\<forall>m'. ex \<noteq> ResourceExhausted m'" by blast
    show ?thesis
      unfolding execute_task_other [OF Inl ne] using Inl ne by (cases ex) simp_all
  qed
qed

lemma execute_task_final:
  "case execute_task e w task of (w', task', r) \<Rightarrow>
     task_id r = id_t task \<and> calls w' \<noteq> [] \<and>
     (case remote e (calls w') of
        Inr reply \<Rightarrow>
          status_r r = COMPLETED \<and> result_r r = Some reply \<and> error_r r = None \<and>
          status task' = COMPLETED \<and> result task' = Some reply
      | Inl ex \<Rightarrow>
          status_r r = FAILED \<and> result_r r = None \<and>
          error_r r = Some (case ex of
                              ResourceExhausted m \<Rightarrow>
                                ''Quota exceeded for both Pro and Flash models''
                            | _ \<Rightarrow> ''Task execution failed: '' @ str_exn ex) \<and>
          status task' = FAILED \<and> error task' = error_r r)"
proof (cases "\<exists>m. remote e (calls w @ [(model task, build_prompt task)]) = Inl (ResourceExhausted m)
               \<and> model task \<noteq> flash")
  case False
  then have "\<forall>m. remote e (calls w @ [(model task, build_prompt task)]) = Inl (ResourceExhausted m)
             \<longrightarrow> model task = flash"
    by blast
  from execute_task_single [OF this] show ?thesis
    by (auto split: prod.splits)
next
  case True
  then obtain m where q: "remote e (calls w @ [(model task, build_prompt task)])
      = Inl (ResourceExhausted m)" and nf: "model task \<noteq> flash"
    by blast
  let ?w1 = "w\<lparr>ticks := Suc (ticks w),
          calls := calls w @ [(model task, build_prompt task)],
          models := insert (model task) (models w)\<rparr>"
  let ?t1 = "task\<lparr>status := RUNNING, model := flash\<rparr>"
  have step: "execute_task e w task = execute_task e ?w1 ?t1"
    using q nf by (rule execute_task_quota_retry)
  have "\<forall>m. remote e (calls ?w1 @ [(model ?t1, build_prompt ?t1)]) = Inl (ResourceExhausted m)
             \<longrightarrow> model ?t1 = flash"
    by simp
  from execute_task_single [OF this] show ?thesis
    unfolding step by (auto split: prod.splits)
qed

text \<open>
  Claim C1. When the first remote call of a task reports quota exhaustion and the model of
  the task is not \<open>gemini-2.5-flash\<close>, \<open>execute_task\<close> sets the model of the task to the
  fallback and runs the whole procedure once more: the returned task has the fallback
  model and the call log has grown by exactly two calls, the original one and one with the
  fallback model, whatever the second call answers. If the second call reports quota
  exhaustion too, task and result end \<open>FAILED\<close> with the quota message.
\<close>

theorem execute_task_fallback_once:
  assumes "remote e (calls w @ [(model task, build_prompt task)]) = Inl (ResourceExhausted m)"
    and "model task \<noteq> flash"
  shows "execute_task e w task =
           execute_task e
             (w\<lparr>ticks := Suc (ticks w),
                calls := calls w @ [(model task, build_prompt task)],
                models := insert (model task) (models w)\<rparr>)
             (task\<lparr>status := RUNNING, model := flash\<rparr>) \<and>
         (case execute_task e w task of (w', task', r) \<Rightarrow>
            model task' = flash \<and>
            calls w' = calls w @ [(model task, build_prompt task), (flash, build_prompt task)] \<and>
            (\<forall>m'. remote e (calls w') = Inl (ResourceExhausted m') \<longrightarrow>
               status task' = FAILED \<and> status_r r = FAILED \<and> result_r r = None \<and>
               error_r r = Some ''Quota exceeded for both Pro and Flash models''))"
proof -
  note facts = execute_task_retry_facts [OF assms]
  note final = execute_task_final [where e = e and w = w and task = task]
  show ?thesis
    using facts final execute_task_quota_retry [OF assms]
    by (auto split: prod.splits)
qed

theorem execute_task_fallback_once_witness:
  "remote env_quota (calls world0 @ [(model task_pro, build_prompt task_pro)])
     = Inl (ResourceExhausted ''429'') \<and>
   model task_pro \<noteq> flash \<and>
   (case execute_task env_quota world0 task_pro of (w', task', r) \<Rightarrow>
      model task' = flash \<and>
      calls w' = [(''gemini-2.5-pro'', ''lang: en'' @ newline @ ''tone: dry'' @ newline @ ''hi''),
                  (flash, ''lang: en'' @ newline @ ''tone: dry'' @ newline @ ''hi'')] \<and>
      status task' = FAILED \<and> status_r r = FAILED \<and> result_r r = None \<and>
      error_r r = Some ''Quota exceeded for both Pro and Flash models'')"
proof -
  have h1: "remote env_quota (calls world0 @ [(model task_pro, build_prompt task_pro)])
     = Inl (ResourceExhausted ''429'')"
    by (simp add: env_quota_def)
  have h2: "model task_pro \<noteq> flash"
    by (simp add: task_pro_def)
  have mt: "model task_pro = ''gemini-2.5-pro''"
    by (simp add: task_pro_def)
  have bp: "build_prompt task_pro = ''lang: en'' @ newline @ ''tone: dry'' @ newline @ ''hi''"
    by (simp add: build_prompt_def task_pro_def)
  have r: "\<And>log. remote env_quota log = Inl (ResourceExhausted ''429'')"
    by (simp add: env_quota_def)
  show ?thesis
    using execute_task_fallback_once [OF h1 h2] h1 h2
    by (simp add: bp r mt world0_def split: prod.splits)
qed

text \<open>
  Claim C6. \<open>execute_task\<close> raises nothing: for every environment, world and task it
  returns a \<open>TaskResult\<close> for that task. The answer to the last remote call decides it: a
  response text gives \<open>COMPLETED\<close> with that text; any exception gives \<open>FAILED\<close> with no
  result text and an error text, the quota message for the quota signal and
  \<open>Task execution failed:\<close> with the text of the exception for every other one, and the
  same error text is stored in the task.
\<close>

theorem execute_task_never_raises:
  "\<exists>w' task' r. execute_task e w task = (w', task', r) \<and>
     task_id r = id_t task \<and> calls w' \<noteq> [] \<and>
     (case remote e (calls w') of
        Inr reply \<Rightarrow>
          status_r r = COMPLETED \<and> result_r r = Some reply \<and> error_r r = None
      | Inl ex \<Rightarrow>
          status_r r = FAILED \<and> result_r r = None \<and>
          error_r r = Some (case ex of
                              ResourceExhausted m \<Rightarrow>
                                ''Quota exceeded for both Pro and Flash models''
                            | _ \<Rightarrow> ''Task execution failed: '' @ str_exn ex) \<and>
          status task' = FAILED \<and> error task' = error_r r)"
proof -
  obtain w' task' r where eq: "execute_task e w task = (w', task', r)"
    by (cases "execute_task e w task") auto
  from execute_task_final [where e = e and w = w and task = task] eq show ?thesis
    by (auto split: sum.splits)
qed

theorem execute_task_never_raises_witness:
  "\<exists>w' task' r. execute_task env_broken world0 task_pro = (w', task', r) \<and>
     task_id r = ''task0001'' \<and> status_r r = FAILED \<and> result_r r = None \<and>
     error_r r = Some ''Task execution failed: 503 unavailable'' \<and>
     status task' = FAILED \<and> error task' = Some ''Task execution failed: 503 unavailable''"
proof -
  have r: "\<And>log. remote env_broken log = Inl (Exception ''503 unavailable'')"
    by (simp add: env_broken_def)
  have i: "id_t task_pro = ''task0001''"
    by (simp add: task_pro_def)
  show ?thesis
    using execute_task_never_raises [of env_broken world0 task_pro]
    by (auto simp: r i)
qed

lemma join_terminated:
  "xs \<noteq> [] \<Longrightarrow> join sep xs @ sep = concat (map (\<lambda>x. x @ sep) xs)"
  by (induction sep xs rule: join.induct) simp_all

lemma build_prompt_lines:
  "build_prompt task =
     concat (map (\<lambda>(k, v). k @ '': '' @ v @ newline)
               (case context_t task of None \<Rightarrow> [] | Some items \<Rightarrow> items)) @ prompt task"
proof (cases "context_t task")
  case None
  then show ?thesis by (simp add: build_prompt_def)
next
  case (Some items)
  show ?thesis
  proof (cases "items = []")
    case True
    with Some show ?thesis by (simp add: build_prompt_def)
  next
    case False
    then have "map (\<lambda>(k, v). k @ '': '' @ v) items \<noteq> []" by simp
    from join_terminated [OF this, of newline]
    have "join newline (map (\<lambda>(k, v). k @ '': '' @ v) items) @ newline
          = concat (map (\<lambda>(k, v). k @ '': '' @ v @ newline) items)"
      by (simp add: comp_def case_prod_unfold)
    with Some False show ?thesis
      by (simp add: build_prompt_def Let_def del: append_assoc add: append_assoc [symmetric])
  qed
qed

lemma execute_task_calls:
  "calls (fst (execute_task e w task)) = calls w @ [(model task, build_prompt task)] \<or>
   calls (fst (execute_task e w task))
     = calls w @ [(model task, build_prompt task), (flash, build_prompt task)]"
proof (cases "\<exists>m. remote e (calls w @ [(model task, build_prompt task)]) = Inl (ResourceExhausted m)
               \<and> model task \<noteq> flash")
  case False
  then have "\<forall>m. remote e (calls w @ [(model task, build_prompt task)]) = Inl (ResourceExhausted m)
             \<longrightarrow> model task = flash"
    by blast
  from execute_task_single [OF this] show ?thesis
    by (auto split: prod.splits)
next
  case True
  then obtain m where "remote e (calls w @ [(model task, build_prompt task)])
      = Inl (ResourceExhausted m)" and "model task \<noteq> flash"
    by blast
  from execute_task_retry_facts [OF this] show ?thesis by simp
qed

text \<open>
  Claim C9. Every remote call that \<open>execute_task\<close> makes (one, or two on the fallback
  path) carries the same effective prompt. With a non-empty context it is the items
  rendered as \<open>key: value\<close>, joined by newlines, then a newline and the original prompt;
  with an empty or absent context it is the original prompt. Put differently, it is one
  line \<open>key: value\<close> per item followed by the original prompt.
\<close>

theorem execute_task_effective_prompt:
  "let effective =
         (case context_t task of
            None \<Rightarrow> prompt task
          | Some items \<Rightarrow>
              if items = [] then prompt task
              else join newline (map (\<lambda>(k, v). k @ '': '' @ v) items) @ newline @ prompt task)
   in (\<exists>ms \<in> {[model task], [model task, flash]}.
         calls (fst (execute_task e w task)) = calls w @ map (\<lambda>m. (m, effective)) ms) \<and>
      effective = concat (map (\<lambda>(k, v). k @ '': '' @ v @ newline)
                            (case context_t task of None \<Rightarrow> [] | Some items \<Rightarrow> items))
                  @ prompt task"
proof -
  have eff: "(case context_t task of
            None \<Rightarrow> prompt task
          | Some items \<Rightarrow>
              if items = [] then prompt task
              else join newline (map (\<lambda>(k, v). k @ '': '' @ v) items) @ newline @ prompt task)
        = build_prompt task"
    by (simp add: build_prompt_def Let_def split: option.splits)
  show ?thesis
    unfolding Let_def eff
    using execute_task_calls [of e w task] build_prompt_lines [of task]
    by auto
qed

theorem execute_task_effective_prompt_witness:
  "calls (fst (execute_task env_flash_only world0 task_pro))
     = [(''gemini-2.5-pro'', ''lang: en'' @ newline @ ''tone: dry'' @ newline @ ''hi''),
        (flash, ''lang: en'' @ newline @ ''tone: dry'' @ newline @ ''hi'')] \<and>
   calls (fst (execute_task env_flash_only world0 task_plain)) = [(flash, ''2+2?'')]"
proof -
  have a: "calls (fst (execute_task env_flash_only world0 task_pro)) \<noteq> [(model task_pro, x)]" for x
    by (simp add: execute_task.simps env_flash_only_def world0_def task_pro_def time_time_def
        try_body_def get_model_def generate_content_def build_prompt_def Let_def)
  have b: "calls (fst (execute_task env_flash_only world0 task_plain))
             \<noteq> [(model task_plain, x), (flash, y)]" for x y
    by (simp add: execute_task.simps env_flash_only_def world0_def task_plain_def time_time_def
        try_body_def get_model_def generate_content_def build_prompt_def Let_def)
  show ?thesis
    using execute_task_effective_prompt [of task_pro env_flash_only world0]
      execute_task_effective_prompt [of task_plain env_flash_only world0] a b
    apply (simp add: Let_def)
    apply (simp add: task_pro_def task_plain_def world0_def)
    done
qed

text \<open>
  Claim C10. On the fallback path the recorded \<open>execution_time\<close> is the difference of the
  clock reading at the end and the reading taken when the retry starts (the second and
  third readings of the run). The reading taken when the first attempt started does not
  enter it: changing that reading leaves the recorded time unchanged.
\<close>

theorem execute_task_retry_timer:
  assumes "remote e (calls w @ [(model task, build_prompt task)]) = Inl (ResourceExhausted m)"
    and "model task \<noteq> flash"
  shows "execution_time (snd (snd (execute_task e w task)))
           = Some (clock e (ticks w + 2) - clock e (ticks w + 1)) \<and>
         (\<forall>x. execution_time (snd (snd (execute_task (e\<lparr>clock := (clock e)(ticks w := x)\<rparr>) w task)))
                = execution_time (snd (snd (execute_task e w task))))"
proof -
  have a: "execution_time (snd (snd (execute_task e w task)))
           = Some (clock e (ticks w + 2) - clock e (ticks w + 1))"
    using execute_task_retry_facts [OF assms] by simp
  have b: "execution_time (snd (snd (execute_task (e\<lparr>clock := (clock e)(ticks w := x)\<rparr>) w task)))
           = Some (clock e (ticks w + 2) - clock e (ticks w + 1))" for x
  proof -
    let ?e = "e\<lparr>clock := (clock e)(ticks w := x)\<rparr>"
    have "remote ?e (calls w @ [(model task, build_prompt task)]) = Inl (ResourceExhausted m)"
      using assms(1) by simp
    from execute_task_retry_facts [OF this assms(2)] show ?thesis by simp
  qed
  show ?thesis using a b by simp
qed

theorem execute_task_retry_timer_witness:
  "remote env_flash_only (calls world0 @ [(model task_pro, build_prompt task_pro)])
     = Inl (ResourceExhausted ''429'') \<and>
   model task_pro \<noteq> flash \<and>
   clock env_flash_only 0 = 0 \<and> clock env_flash_only 1 = 1 \<and> clock env_flash_only 2 = 4 \<and>
   execution_time (snd (snd (execute_task env_flash_only world0 task_pro))) = Some 3"
proof -
  have h1: "remote env_flash_only (calls world0 @ [(model task_pro, build_prompt task_pro)])
     = Inl (ResourceExhausted ''429'')"
    by (simp add: env_flash_only_def world0_def task_pro_def)
  have h2: "model task_pro \<noteq> flash"
    by (simp add: task_pro_def)
  have c: "clock env_flash_only 0 = 0" "clock env_flash_only 1 = 1" "clock env_flash_only 2 = 4"
    by (simp_all add: env_flash_only_def)
  have c': "clock env_flash_only (Suc (Suc 0)) = 4"
    by (simp add: env_flash_only_def)
  have t: "ticks world0 = 0" by (simp add: world0_def)
  show ?thesis
    using execute_task_retry_timer [OF h1 h2] h1 h2 c
    by (simp add: t c')
qed

section \<open>Properties of the parallel execution\<close>

lemma begin_task_id: "begin_task e w task = (w', task', st, resp) \<Longrightarrow> id_t task' = id_t task"
  by (auto simp: begin_task_eq)

lemma resume_task_id:
  "resume_task e w task st resp = (w', task', ro) \<Longrightarrow> id_t task' = id_t task"
  by (auto simp: resume_task_def time_time_def Let_def split: sum.splits exn.splits if_splits)

lemma resume_task_result:
  "resume_task e w task st resp = (w', task', Some r) \<Longrightarrow> task_id r = id_t task \<and> settled r"
  by (auto simp: resume_task_def time_time_def Let_def settled_def
      split: sum.splits exn.splits if_splits)

lemma aligned_start:
  assumes "aligned ts st" "i < length ts"
  shows "aligned ts (start e st i)"
proof -
  obtain w' task' s resp where b: "begin_task e (world_p st) (tasks_p st ! i) = (w', task', s, resp)"
    by (cases "begin_task e (world_p st) (tasks_p st ! i)") auto
  from begin_task_id [OF b] have "id_t task' = id_t (tasks_p st ! i)" .
  with assms b show ?thesis
    by (auto simp: aligned_def start_def nth_list_update)
qed

lemma aligned_admit:
  assumes "aligned ts st" "i < length ts"
  shows "aligned ts (admit e i st)"
proof (cases "0 < sem_value st")
  case True
  from assms(1) have "aligned ts (st\<lparr>sem_value := sem_value st - 1\<rparr>)"
    by (simp add: aligned_def)
  from aligned_start [OF this assms(2)] True show ?thesis
    by (simp add: admit_def)
next
  case False
  with assms show ?thesis
    by (auto simp: admit_def aligned_def nth_list_update)
qed

lemma first_blocked_less: "first_blocked cs = Some j \<Longrightarrow> j < length cs"
  by (induction cs arbitrary: j) (auto split: if_splits)

lemma nth_update_not_Finished:
  "xs[j := c] ! i = Finished x \<Longrightarrow> \<forall>y. c \<noteq> Finished y \<Longrightarrow> xs ! i = Finished x"
  by (cases "i = j"; cases "j < length xs") (auto simp: list_update_beyond)

lemma aligned_release:
  assumes "aligned ts st"
  shows "aligned ts (release st)"
  using assms
  by (auto simp: release_def aligned_def split: option.splits
      dest!: nth_update_not_Finished)

lemma aligned_run_step:
  assumes "aligned ts st"
  shows "aligned ts (run_step e i st)"
proof (cases "i < length (coros st)")
  case False
  with assms show ?thesis by (simp add: run_step_def)
next
  case True
  with assms have i: "i < length ts" by (simp add: aligned_def)
  show ?thesis
  proof (cases "coros st ! i")
    case Blocked
    with assms True show ?thesis by (simp add: run_step_def)
  next
    case Ready
    with aligned_start [OF assms i] True show ?thesis by (simp add: run_step_def)
  next
    case (Finished x)
    with assms True show ?thesis by (simp add: run_step_def)
  next
    case (Awaiting s resp)
    obtain w' task' ro where r: "resume_task e (world_p st) (tasks_p st ! i) s resp = (w', task', ro)"
      by (cases "resume_task e (world_p st) (tasks_p st ! i) s resp") auto
    from resume_task_id [OF r] assms i have idt: "id_t task' = id_t (ts ! i)"
      by (simp add: aligned_def)
    show ?thesis
    proof (cases ro)
      case None
      have "aligned ts (st\<lparr>world_p := w', tasks_p := (tasks_p st)[i := task']\<rparr>)"
        using assms idt i by (auto simp: aligned_def nth_list_update)
      from aligned_start [OF this i] Awaiting True r None show ?thesis
        by (simp add: run_step_def)
    next
      case (Some res)
      with r resume_task_result have "task_id res = id_t (tasks_p st ! i)" "settled res"
        by blast+
      with assms i idt
      have "aligned ts (st\<lparr>world_p := w', tasks_p := (tasks_p st)[i := task'],
                             coros := (coros st)[i := Finished (Inr res)]\<rparr>)"
        by (auto simp: aligned_def nth_list_update)
      from aligned_release [OF this] Awaiting True r Some show ?thesis
        by (simp add: run_step_def)
    qed
  qed
qed

lemma aligned_fold_run_step: "aligned ts st \<Longrightarrow> aligned ts (fold (run_step e) sched st)"
  by (induction sched arbitrary: st) (simp_all add: aligned_run_step)

lemma aligned_fold_admit:
  "aligned ts st \<Longrightarrow> set is \<subseteq> {..<length ts} \<Longrightarrow> aligned ts (fold (admit e) is st)"
  by (induction "is" arbitrary: st) (simp_all add: aligned_admit)

lemma aligned_initial:
  "aligned ts \<lparr>world_p = w, tasks_p = ts, coros = replicate (length ts) Blocked, sem_value = k\<rparr>"
  by (simp add: aligned_def)

lemma gather_Some:
  "gather cs = Some rs \<Longrightarrow> length rs = length cs \<and> (\<forall>i<length cs. cs ! i = Finished (rs ! i))"
proof (induction cs arbitrary: rs rule: gather.induct)
  case 1
  then show ?case by simp
next
  case (2 x cs)
  then obtain rs' where "gather cs = Some rs'" "rs = x # rs'" by auto
  with 2 show ?case by (auto simp: nth_Cons split: nat.splits)
qed simp_all

lemma final_results_nth:
  "i < length rs \<Longrightarrow>
   final_results ts rs ! i =
     (case rs ! i of
        Inl ex \<Rightarrow> \<lparr>task_id = id_t (ts ! i), status_r = FAILED, result_r = None,
                   error_r = Some (str_exn ex), execution_time = None\<rparr>
      | Inr res \<Rightarrow> res)"
  by (simp add: final_results_def nth_enumerate_eq)

lemma length_final_results [simp]: "length (final_results ts rs) = length rs"
  by (simp add: final_results_def)

lemma execute_tasks_parallel_results:
  assumes "execute_tasks_parallel e sched w ts mc = Some (w', ts', Inr rs)"
  shows "length rs = length ts \<and>
         (\<forall>i<length ts. task_id (rs ! i) = id_t (ts ! i) \<and> settled (rs ! i))"
proof -
  let ?st0 = "\<lparr>world_p = w, tasks_p = ts, coros = replicate (length ts) Blocked,
               sem_value = nat mc\<rparr>"
  let ?st2 = "fold (run_step e) sched (fold (admit e) [0..<length ts] ?st0)"
  have al: "aligned ts ?st2"
    by (intro aligned_fold_run_step aligned_fold_admit aligned_initial) auto
  from assms have nn: "\<not> mc < 0"
    by (auto simp: execute_tasks_parallel_def)
  with assms obtain gs where g: "gather (coros ?st2) = Some gs"
    and rs: "rs = final_results (tasks_p ?st2) gs"
    by (auto simp: execute_tasks_parallel_def Let_def split: option.splits)
  from gather_Some [OF g] al
  have len: "length gs = length ts" and fin: "\<forall>i<length ts. coros ?st2 ! i = Finished (gs ! i)"
    by (simp_all add: aligned_def)
  have "task_id (rs ! i) = id_t (ts ! i) \<and> settled (rs ! i)" if "i < length ts" for i
  proof -
    from fin that have "coros ?st2 ! i = Finished (gs ! i)" by blast
    with al that obtain r where "gs ! i = Inr r" "task_id r = id_t (ts ! i)" "settled r"
      unfolding aligned_def by blast
    with that len show ?thesis
      by (simp add: rs final_results_nth)
  qed
  with len show ?thesis by (simp add: rs)
qed

text \<open>
  With a positive concurrency limit the three-turn schedule brings every coroutine to its
  end, whatever the environment answers, so that \<open>execute_tasks_parallel\<close> returns.
\<close>

lemma start_eq:
  "start e st i =
     st\<lparr>world_p := world_p st\<lparr>ticks := Suc (ticks (world_p st)),
                   calls := calls (world_p st) @
                            [(model (tasks_p st ! i), build_prompt (tasks_p st ! i))],
                   models := insert (model (tasks_p st ! i)) (models (world_p st))\<rparr>,
        tasks_p := (tasks_p st)[i := (tasks_p st ! i)\<lparr>status := RUNNING\<rparr>],
        coros := (coros st)[i := Awaiting (clock e (ticks (world_p st)))
                   (remote e (calls (world_p st) @
                      [(model (tasks_p st ! i), build_prompt (tasks_p st ! i))]))]\<rparr>"
  by (simp add: start_def begin_task_eq)

lemma resume_task_cases:
  "(\<exists>w' t' r'. resume_task e w t s r = (w', t', Some r')) \<or>
   (model t \<noteq> flash \<and> resume_task e w t s r = (w, t\<lparr>model := flash\<rparr>, None))"
  by (auto simp: resume_task_def time_time_def Let_def split: sum.splits exn.splits)

lemma first_blocked_frontier:
  assumes "\<forall>j<k. cs ! j \<noteq> Blocked" "k \<le> length cs" "k < length cs \<longrightarrow> cs ! k = Blocked"
  shows "first_blocked cs = (if k < length cs then Some k else None)"
  using assms
proof (induction cs arbitrary: k)
  case Nil
  then show ?case by simp
next
  case (Cons c cs)
  show ?case
  proof (cases k)
    case 0
    with Cons.prems show ?thesis by simp
  next
    case (Suc k')
    with Cons.prems have c: "c \<noteq> Blocked" by auto
    have "first_blocked cs = (if k' < length cs then Some k' else None)"
      using Cons.prems Suc by (intro Cons.IH) auto
    with c Suc show ?thesis by simp
  qed
qed

lemma frontier_ready:
  assumes "frontier n i k st" "i < n" "coros st ! i = Ready"
  shows "frontier n i k (run_step e i st) \<and> (\<exists>s r. coros (run_step e i st) ! i = Awaiting s r)"
proof -
  from assms have len: "i < length (coros st)" by (simp add: frontier_def)
  have rs: "run_step e i st = start e st i"
    using len assms(3) by (simp add: run_step_def)
  show ?thesis
    using assms(1,2) len unfolding rs start_eq frontier_def
    by (auto simp: nth_list_update)
qed

lemma frontier_finish:
  assumes "frontier n i k st" "i < n"
  shows "\<exists>k'. frontier n (Suc i) k'
           (release (st\<lparr>world_p := w, tasks_p := (tasks_p st)[i := t],
                        coros := (coros st)[i := Finished x]\<rparr>))"
proof -
  let ?st = "st\<lparr>world_p := w, tasks_p := (tasks_p st)[i := t],
                 coros := (coros st)[i := Finished x]\<rparr>"
  from assms have ik: "i < k" and kn: "k \<le> n" and len: "length (coros st) = n"
    by (simp_all add: frontier_def)
  have low: "coros st ! j \<noteq> Blocked" if "j < i" for j
    using assms(1) that by (fastforce simp: frontier_def)
  have mid: "coros st ! j \<noteq> Blocked" if "i \<le> j" "j < k" for j
    using assms(1) that by (fastforce simp: frontier_def)
  have nb: "\<forall>j<k. coros ?st ! j \<noteq> Blocked"
  proof (intro allI impI)
    fix j assume "j < k"
    show "coros ?st ! j \<noteq> Blocked"
    proof (cases "j = i")
      case True
      with len assms(2) show ?thesis by simp
    next
      case False
      with low [of j] mid [of j] \<open>j < k\<close> show ?thesis
        by (cases "j < i") auto
    qed
  qed
  have bl: "k < length (coros ?st) \<longrightarrow> coros ?st ! k = Blocked"
    using assms(1) ik by (auto simp: frontier_def)
  have fb: "first_blocked (coros ?st) = (if k < n then Some k else None)"
    using first_blocked_frontier [OF nb _ bl] kn len by simp
  then have fb': "first_blocked ((coros st)[i := Finished x]) = (if k < n then Some k else None)"
    by simp
  show ?thesis
  proof (cases "k < n")
    case True
    then have rel: "release ?st = ?st\<lparr>coros := (coros st)[i := Finished x, k := Ready]\<rparr>"
      by (simp add: release_def fb')
    have "frontier n (Suc i) (Suc k) (release ?st)"
      unfolding rel using assms(1) ik True len
      by (auto simp: frontier_def nth_list_update less_Suc_eq)
    then show ?thesis ..
  next
    case False
    with kn have "k = n" by simp
    from False have rel: "release ?st = ?st\<lparr>sem_value := sem_value st + 1\<rparr>"
      by (simp add: release_def fb')
    have "frontier n (Suc i) k (release ?st)"
      unfolding rel using assms(1) ik len \<open>k = n\<close>
      by (auto simp: frontier_def nth_list_update less_Suc_eq)
    then show ?thesis ..
  qed
qed


lemma frontier_await:
  assumes "frontier n i k st" "i < n" "coros st ! i = Awaiting s r"
  shows "(\<exists>k'. frontier n (Suc i) k' (run_step e i st)) \<or>
         (frontier n i k (run_step e i st) \<and>
          (\<exists>s' r'. coros (run_step e i st) ! i = Awaiting s' r') \<and>
          model (tasks_p (run_step e i st) ! i) = flash)"
proof -
  from assms have len: "i < length (coros st)" "i < length (tasks_p st)"
    by (simp_all add: frontier_def)
  from resume_task_cases [of e "world_p st" "tasks_p st ! i" s r]
  show ?thesis
  proof (elim disjE exE conjE)
    fix w' t' r'
    assume "resume_task e (world_p st) (tasks_p st ! i) s r = (w', t', Some r')"
    then have "run_step e i st =
        release (st\<lparr>world_p := w', tasks_p := (tasks_p st)[i := t'],
                     coros := (coros st)[i := Finished (Inr r')]\<rparr>)"
      using len assms(3) by (simp add: run_step_def)
    with frontier_finish [OF assms(1,2)] show ?thesis by simp
  next
    assume "model (tasks_p st ! i) \<noteq> flash"
      and "resume_task e (world_p st) (tasks_p st ! i) s r
             = (world_p st, (tasks_p st ! i)\<lparr>model := flash\<rparr>, None)"
    then have rs: "run_step e i st =
        start e (st\<lparr>world_p := world_p st,
                    tasks_p := (tasks_p st)[i := (tasks_p st ! i)\<lparr>model := flash\<rparr>]\<rparr>) i"
      using len assms(3) by (simp add: run_step_def)
    have "frontier n i k (run_step e i st) \<and>
          (\<exists>s' r'. coros (run_step e i st) ! i = Awaiting s' r') \<and>
          model (tasks_p (run_step e i st) ! i) = flash"
      using assms(1,2) len unfolding rs start_eq frontier_def
      by (auto simp: nth_list_update)
    then show ?thesis ..
  qed
qed

lemma frontier_await_flash:
  assumes "frontier n i k st" "i < n" "coros st ! i = Awaiting s r"
    and "model (tasks_p st ! i) = flash"
  shows "\<exists>k'. frontier n (Suc i) k' (run_step e i st)"
proof -
  from assms have len: "i < length (coros st)" "i < length (tasks_p st)"
    by (simp_all add: frontier_def)
  from resume_task_cases [of e "world_p st" "tasks_p st ! i" s r] assms(4)
  obtain w' t' r' where "resume_task e (world_p st) (tasks_p st ! i) s r = (w', t', Some r')"
    by blast
  then have "run_step e i st =
      release (st\<lparr>world_p := w', tasks_p := (tasks_p st)[i := t'],
                   coros := (coros st)[i := Finished (Inr r')]\<rparr>)"
    using len assms(3) by (simp add: run_step_def)
  with frontier_finish [OF assms(1,2)] show ?thesis by simp
qed

lemma frontier_done:
  assumes "frontier n (Suc i) k st" "i < n"
  shows "run_step e i st = st"
proof -
  from assms obtain x where "coros st ! i = Finished x"
    by (auto simp: frontier_def)
  then show ?thesis by (simp add: run_step_def)
qed

lemma frontier_two:
  assumes "frontier n i k st" "i < n" "coros st ! i = Awaiting s r"
  shows "\<exists>k'. frontier n (Suc i) k' (run_step e i (run_step e i st))"
  using frontier_await [OF assms, of e]
proof (elim disjE exE conjE)
  fix k' assume f: "frontier n (Suc i) k' (run_step e i st)"
  from frontier_done [OF f assms(2)] f show ?thesis by auto
next
  fix s' r'
  assume "frontier n i k (run_step e i st)" "coros (run_step e i st) ! i = Awaiting s' r'"
    "model (tasks_p (run_step e i st) ! i) = flash"
  from frontier_await_flash [OF this(1) assms(2) this(2,3)] show ?thesis .
qed

lemma frontier_three:
  assumes "frontier n i k st" "i < n"
  shows "\<exists>k'. frontier n (Suc i) k' (run_step e i (run_step e i (run_step e i st)))"
proof -
  from assms have "coros st ! i = Ready \<or> (\<exists>s r. coros st ! i = Awaiting s r)"
    by (auto simp: frontier_def)
  then show ?thesis
  proof (elim disjE exE)
    assume "coros st ! i = Ready"
    from frontier_ready [OF assms this, of e] obtain s r
      where "frontier n i k (run_step e i st)" "coros (run_step e i st) ! i = Awaiting s r"
      by blast
    from frontier_two [OF this(1) assms(2) this(2)] show ?thesis .
  next
    fix s r assume "coros st ! i = Awaiting s r"
    from frontier_two [OF assms this, of e] obtain k'
      where f: "frontier n (Suc i) k' (run_step e i (run_step e i st))"
      by blast
    from frontier_done [OF f assms(2)] f show ?thesis by auto
  qed
qed

lemma frontier_fifo:
  assumes "frontier n 0 k st" "m \<le> n"
  shows "\<exists>k'. frontier n m k' (fold (run_step e) (fifo_schedule m) st)"
  using assms(2)
proof (induction m)
  case 0
  with assms(1) show ?case by (auto simp: fifo_schedule_def)
next
  case (Suc m)
  then obtain k' where f: "frontier n m k' (fold (run_step e) (fifo_schedule m) st)"
    by auto
  from Suc.prems have "m < n" by simp
  from frontier_three [OF f this, of e] show ?case
    by (simp add: fifo_schedule_def)
qed

lemma gather_finished:
  "\<forall>j<length cs. \<exists>x. cs ! j = Finished x \<Longrightarrow> \<exists>rs. gather cs = Some rs"
proof (induction cs)
  case Nil
  then show ?case by simp
next
  case (Cons c cs)
  from Cons.prems obtain x where "c = Finished x" by fastforce
  moreover from Cons.prems have "\<forall>j<length cs. \<exists>x. cs ! j = Finished x" by fastforce
  ultimately show ?case using Cons.IH by auto
qed


lemma admit_prefix:
  assumes "m \<le> length ts"
  shows "let st = fold (admit e) [0..<m]
                    \<lparr>world_p = w, tasks_p = ts, coros = replicate (length ts) Blocked,
                     sem_value = mc\<rparr>
         in length (coros st) = length ts \<and> length (tasks_p st) = length ts \<and>
            sem_value st = mc - min mc m \<and>
            (\<forall>j<min mc m. \<exists>s r. coros st ! j = Awaiting s r) \<and>
            (\<forall>j. min mc m \<le> j \<and> j < length ts \<longrightarrow> coros st ! j = Blocked)"
  using assms
proof (induction m)
  case 0
  then show ?case by simp
next
  case (Suc m)
  let ?st = "fold (admit e) [0..<m]
               \<lparr>world_p = w, tasks_p = ts, coros = replicate (length ts) Blocked,
                sem_value = mc\<rparr>"
  from Suc have ih: "length (coros ?st) = length ts" "length (tasks_p ?st) = length ts"
      "sem_value ?st = mc - min mc m"
      "\<forall>j<min mc m. \<exists>s r. coros ?st ! j = Awaiting s r"
      "\<forall>j. min mc m \<le> j \<and> j < length ts \<longrightarrow> coros ?st ! j = Blocked"
    by (simp_all add: Let_def)
  from Suc.prems have m: "m < length ts" by simp
  have step: "fold (admit e) [0..<Suc m]
               \<lparr>world_p = w, tasks_p = ts, coros = replicate (length ts) Blocked,
                sem_value = mc\<rparr> = admit e m ?st"
    by simp
  show ?case
  proof (cases "m < mc")
    case True
    then have a: "admit e m ?st = start e (?st\<lparr>sem_value := sem_value ?st - 1\<rparr>) m"
      by (simp add: admit_def ih(3))
    from True have mn: "min mc m = m" "min mc (Suc m) = Suc m" by simp_all
    show ?thesis
      unfolding step a start_eq Let_def using ih m True
      by (auto simp: mn nth_list_update less_Suc_eq)
  next
    case False
    then have a: "admit e m ?st = ?st\<lparr>coros := (coros ?st)[m := Blocked]\<rparr>"
      by (simp add: admit_def ih(3))
    from False have mn: "min mc m = mc" "min mc (Suc m) = mc" by simp_all
    show ?thesis
      unfolding step a Let_def using ih m False
      by (auto simp: mn nth_list_update)
  qed
qed

lemma execute_tasks_parallel_fifo_returns:
  assumes "0 < mc"
  shows "\<exists>w' ts' rs. execute_tasks_parallel e (fifo_schedule (length ts)) w ts mc
                       = Some (w', ts', Inr rs)"
proof -
  let ?st1 = "fold (admit e) [0..<length ts]
                \<lparr>world_p = w, tasks_p = ts, coros = replicate (length ts) Blocked,
                 sem_value = nat mc\<rparr>"
  from admit_prefix [of "length ts" ts e w "nat mc"] assms
  have "frontier (length ts) 0 (min (nat mc) (length ts)) ?st1"
    by (auto simp: frontier_def Let_def)
  from frontier_fifo [OF this order_refl, of e] obtain k
    where "frontier (length ts) (length ts) k (fold (run_step e) (fifo_schedule (length ts)) ?st1)"
    by blast
  then have "\<forall>j<length (coros (fold (run_step e) (fifo_schedule (length ts)) ?st1)).
               \<exists>x. coros (fold (run_step e) (fifo_schedule (length ts)) ?st1) ! j = Finished x"
    by (simp add: frontier_def)
  from gather_finished [OF this] assms show ?thesis
    by (auto simp: execute_tasks_parallel_def Let_def)
qed

lemma parallel_run_abc:
  "execute_tasks_parallel env_flash_only [1, 0, 2, 2, 0, 2] world0 [task_a, task_b, task_c] 2 =
     Some
      (\<lparr>uuids = 0, ticks = 8,
          calls = [(''gemini-2.5-pro'', ''a''), (flash, ''b''), (flash, ''a''),
                   (''gemini-2.5-pro'', ''c''), (flash, ''c'')],
          models = {flash, ''gemini-2.5-pro''}\<rparr>,
       [task_a\<lparr>model := flash, status := COMPLETED, result := Some ''pong''\<rparr>,
        task_b\<lparr>status := COMPLETED, result := Some ''pong''\<rparr>,
        task_c\<lparr>model := flash, status := COMPLETED, result := Some ''pong''\<rparr>],
       Inr [\<lparr>task_id = ''aaaaaaaa'', status_r = COMPLETED, result_r = Some ''pong'',
             error_r = None, execution_time = Some 27\<rparr>,
            \<lparr>task_id = ''bbbbbbbb'', status_r = COMPLETED, result_r = Some ''pong'',
             error_r = None, execution_time = Some 3\<rparr>,
            \<lparr>task_id = ''cccccccc'', status_r = COMPLETED, result_r = Some ''pong'',
             error_r = None, execution_time = Some 24\<rparr>])"
  by code_simp

lemma parallel_run_abc_other:
  "execute_tasks_parallel env_flash_only [0, 0, 1, 2, 2, 2] world0 [task_a, task_b, task_c] 2 =
     Some
      (\<lparr>uuids = 0, ticks = 8,
          calls = [(''gemini-2.5-pro'', ''a''), (flash, ''b''), (flash, ''a''),
                   (''gemini-2.5-pro'', ''c''), (flash, ''c'')],
          models = {flash, ''gemini-2.5-pro''}\<rparr>,
       [task_a\<lparr>model := flash, status := COMPLETED, result := Some ''pong''\<rparr>,
        task_b\<lparr>status := COMPLETED, result := Some ''pong''\<rparr>,
        task_c\<lparr>model := flash, status := COMPLETED, result := Some ''pong''\<rparr>],
       Inr [\<lparr>task_id = ''aaaaaaaa'', status_r = COMPLETED, result_r = Some ''pong'',
             error_r = None, execution_time = Some 5\<rparr>,
            \<lparr>task_id = ''bbbbbbbb'', status_r = COMPLETED, result_r = Some ''pong'',
             error_r = None, execution_time = Some 15\<rparr>,
            \<lparr>task_id = ''cccccccc'', status_r = COMPLETED, result_r = Some ''pong'',
             error_r = None, execution_time = Some 13\<rparr>])"
  by code_simp

text \<open>
  Claim C4. Whenever \<open>execute_tasks_parallel\<close> returns a list, for any schedule of the
  coroutines (that is, any order in which the remote calls come back), any environment
  and any concurrency limit, the list has the length of the input and its entry \<open>i\<close>
  carries the identifier of input task \<open>i\<close>. With a positive concurrency limit there is a
  schedule under which it returns.
\<close>

theorem execute_tasks_parallel_aligned:
  "(\<forall>sched w' ts' rs.
      execute_tasks_parallel e sched w ts mc = Some (w', ts', Inr rs) \<longrightarrow>
      length rs = length ts \<and> (\<forall>i<length ts. task_id (rs ! i) = id_t (ts ! i))) \<and>
   (0 < mc \<longrightarrow>
      (\<exists>sched w' ts' rs. execute_tasks_parallel e sched w ts mc = Some (w', ts', Inr rs)))"
  using execute_tasks_parallel_results [of e _ w ts mc]
    execute_tasks_parallel_fifo_returns [of mc e ts w]
  by blast

theorem execute_tasks_parallel_aligned_witness:
  "(\<exists>w' ts' rs.
     execute_tasks_parallel env_flash_only [1, 0, 2, 2, 0, 2] world0 [task_a, task_b, task_c] 2
       = Some (w', ts', Inr rs) \<and>
     map execution_time rs = [Some 27, Some 3, Some 24] \<and>
     length rs = 3 \<and>
     (\<forall>i<3. task_id (rs ! i) = id_t ([task_a, task_b, task_c] ! i))) \<and>
   (\<exists>w' ts' rs.
     execute_tasks_parallel env_flash_only [0, 0, 1, 2, 2, 2] world0 [task_a, task_b, task_c] 2
       = Some (w', ts', Inr rs) \<and>
     map execution_time rs = [Some 5, Some 15, Some 13] \<and>
     length rs = 3 \<and>
     (\<forall>i<3. task_id (rs ! i) = id_t ([task_a, task_b, task_c] ! i))) \<and>
   (0::int) < 2 \<and>
   (\<exists>sched w' ts' rs.
     execute_tasks_parallel env_flash_only sched world0 [task_a, task_b, task_c] 2
       = Some (w', ts', Inr rs))"
proof -
  note ex = execute_tasks_parallel_aligned
      [of env_flash_only world0 "[task_a, task_b, task_c]" 2, THEN conjunct2]
  note al = execute_tasks_parallel_aligned
      [of env_flash_only world0 "[task_a, task_b, task_c]" 2, THEN conjunct1, rule_format]
  from parallel_run_abc al [OF parallel_run_abc]
    parallel_run_abc_other al [OF parallel_run_abc_other] ex
  show ?thesis by simp
qed

section \<open>Properties of the orchestrator\<close>

lemma execute_task_settled:
  assumes "execute_task e w task = (w', task', r)"
  shows "task_id r = id_t task \<and> settled r"
  using execute_task_final [where e = e and w = w and task = task] assms
  by (auto simp: settled_def split: sum.splits)

lemma execute_tasks_sequential_results:
  "execute_tasks_sequential e w ts = (w', ts', rs) \<Longrightarrow>
   length rs = length ts \<and> (\<forall>i<length ts. task_id (rs ! i) = id_t (ts ! i) \<and> settled (rs ! i))"
proof (induction ts arbitrary: w w' ts' rs)
  case Nil
  then show ?case by simp
next
  case (Cons task rest)
  obtain w1 task1 r where h: "execute_task e w task = (w1, task1, r)"
    by (cases "execute_task e w task") auto
  obtain w2 rest1 rs1 where t: "execute_tasks_sequential e w1 rest = (w2, rest1, rs1)"
    by (cases "execute_tasks_sequential e w1 rest") auto
  from Cons.prems h t have rs: "rs = r # rs1" by simp
  from Cons.IH [OF t] execute_task_settled [OF h] show ?case
    by (auto simp: rs nth_Cons split: nat.splits)
qed

lemma length_sorted_py [simp]: "length (sorted_py key rv xs) = length xs"
  by (simp add: sorted_py_def)

lemma length_sorted_tasks [simp]: "length (sorted_tasks b) = length (tasks b)"
  by (simp add: sorted_tasks_def)

lemma ones_filter:
  "sum_list (map (\<lambda>r. 1) (filter P rs)) = int (length (filter P rs))"
  by (induction rs) simp_all

lemma tally_settled:
  "\<forall>r\<in>set rs. settled r \<Longrightarrow>
   length (filter (\<lambda>r. status_r r = COMPLETED) rs) + length (filter (\<lambda>r. status_r r = FAILED) rs)
     = length rs"
  by (induction rs) (auto simp: settled_def)

lemma execute_batch_returns:
  assumes "execute_batch e sched orch w b = Some (orch', w', Inr br)"
  shows "length (results br) = length (tasks b) \<and>
         (\<forall>i<length (tasks b). task_id (results br ! i) = id_t (sorted_tasks b ! i)
                                   \<and> settled (results br ! i)) \<and>
         batch_id br = id_b b \<and>
         completed_tasks br = int (length (filter (\<lambda>r. status_r r = COMPLETED) (results br))) \<and>
         failed_tasks br = int (length (filter (\<lambda>r. status_r r = FAILED) (results br))) \<and>
         total_tasks br = int (length (results br)) \<and>
         orch' = orch\<lparr>active_batches := (active_batches orch)(id_b b := None),
                       completed_batches := (completed_batches orch)(id_b b \<mapsto> br)\<rparr>"
proof -
  let ?w1 = "w\<lparr>ticks := Suc (ticks w)\<rparr>"
  let ?run = "if parallel b
              then execute_tasks_parallel e sched ?w1 (sorted_tasks b) (max_concurrent orch)
              else (let (w2, ts, rs) = execute_tasks_sequential e ?w1 (sorted_tasks b)
                    in Some (w2, ts, Inr rs))"
  from assms obtain w2 ts rs where run: "?run = Some (w2, ts, Inr rs)"
    by (auto simp: execute_batch_def time_time_def Let_def
        split: option.splits prod.splits sum.splits if_splits)
  have al: "length rs = length (sorted_tasks b) \<and>
        (\<forall>i<length (sorted_tasks b). task_id (rs ! i) = id_t (sorted_tasks b ! i) \<and> settled (rs ! i))"
  proof (cases "parallel b")
    case True
    with run have "execute_tasks_parallel e sched ?w1 (sorted_tasks b) (max_concurrent orch)
        = Some (w2, ts, Inr rs)"
      by simp
    from execute_tasks_parallel_results [OF this] show ?thesis .
  next
    case False
    with run have "execute_tasks_sequential e ?w1 (sorted_tasks b) = (w2, ts, rs)"
      by (auto split: prod.splits)
    from execute_tasks_sequential_results [OF this] show ?thesis .
  qed
  have act: "(if active_batches orch (id_b b) \<noteq> None
              then (active_batches orch)(id_b b := None) else active_batches orch)
             = (active_batches orch)(id_b b := None)"
    by (auto simp: fun_eq_iff)
  from assms run have br: "br = \<lparr>batch_id = id_b b,
        completed_tasks = sum_list (map (\<lambda>r. 1) (filter (\<lambda>r. status_r r = COMPLETED) rs)),
        failed_tasks = sum_list (map (\<lambda>r. 1) (filter (\<lambda>r. status_r r = FAILED) rs)),
        total_tasks = int (length rs), results = rs,
        total_time = clock e (ticks w2) - clock e (ticks w)\<rparr>"
    and o: "orch' = orch\<lparr>active_batches := (active_batches orch)(id_b b := None),
                       completed_batches := (completed_batches orch)(id_b b \<mapsto> br)\<rparr>"
    unfolding execute_batch_def time_time_def Let_def act
    by (simp_all split: prod.splits)
  from al br o show ?thesis
    by (simp add: ones_filter)
qed

lemma execute_batch_sequential_returns:
  assumes "\<not> parallel b"
  shows "\<exists>orch' w' br. execute_batch e sched orch w b = Some (orch', w', Inr br)"
  using assms
  by (simp add: execute_batch_def Let_def split: prod.splits)

lemma execute_batch_fifo_returns:
  assumes "parallel b \<longrightarrow> 0 < max_concurrent orch"
  shows "\<exists>orch' w' br. execute_batch e (fifo_schedule (length (tasks b))) orch w b
                         = Some (orch', w', Inr br)"
proof (cases "parallel b")
  case False
  then show ?thesis by (rule execute_batch_sequential_returns)
next
  case True
  with assms have mc: "0 < max_concurrent orch" by simp
  from execute_tasks_parallel_fifo_returns [OF mc, of e "sorted_tasks b" "w\<lparr>ticks := Suc (ticks w)\<rparr>"]
  obtain w' ts' rs
    where "execute_tasks_parallel e (fifo_schedule (length (tasks b))) (w\<lparr>ticks := Suc (ticks w)\<rparr>)
             (sorted_tasks b) (max_concurrent orch) = Some (w', ts', Inr rs)"
    by auto
  with True show ?thesis
    by (simp add: execute_batch_def time_time_def Let_def split: prod.splits)
qed

lemma sorted_tasks_abc: "sorted_tasks batch_abc = [task_a, task_b, task_c]"
  by (simp add: sorted_tasks_def sorted_py_def batch_abc_def task_a_def task_b_def task_c_def
      list_TaskPriority_def)

lemma parallel_run_mixed:
  "execute_tasks_parallel env_mixed [1, 0, 2, 2, 0, 2] (world0\<lparr>ticks := Suc 0\<rparr>)
       [task_a, task_b, task_c] 2 =
     Some
      (world_abc\<lparr>ticks := 9\<rparr>,
       [task_a\<lparr>model := flash, status := COMPLETED, result := Some ''re: a''\<rparr>,
        task_b\<lparr>status := FAILED, error := Some ''Task execution failed: 500 internal''\<rparr>,
        task_c\<lparr>model := flash, status := COMPLETED, result := Some ''re: c''\<rparr>],
       Inr results_abc)"
  by code_simp

lemma batch_run_abc:
  "execute_batch env_mixed [1, 0, 2, 2, 0, 2] orch0 world0 batch_abc =
     Some (orch0\<lparr>active_batches := Map.empty,
                  completed_batches := [''batch001'' \<mapsto> batch_result_abc]\<rparr>,
           world_abc, Inr batch_result_abc)"
proof -
  have p: "parallel batch_abc" and i: "id_b batch_abc = ''batch001''"
    by (simp_all add: batch_abc_def)
  have t: "time_time env_mixed world0 = (0, world0\<lparr>ticks := Suc 0\<rparr>)"
    by (simp add: time_time_def env_mixed_def world0_def)
  have t': "time_time env_mixed (world_abc\<lparr>ticks := 9\<rparr>) = (9, world_abc)"
    by (simp add: time_time_def env_mixed_def world_abc_def)
  have m: "max_concurrent orch0 = 2"
    by (simp add: orch0_def)
  have c: "sum_list (map (\<lambda>r. 1) (filter (\<lambda>r. status_r r = COMPLETED) results_abc)) = (2::int)"
      "sum_list (map (\<lambda>r. 1) (filter (\<lambda>r. status_r r = FAILED) results_abc)) = (1::int)"
      "length results_abc = 3"
    by (simp_all add: results_abc_def)
  have run: "(if parallel batch_abc
              then execute_tasks_parallel env_mixed [1, 0, 2, 2, 0, 2] (world0\<lparr>ticks := Suc 0\<rparr>)
                     [task_a, task_b, task_c] 2
              else other)
             = Some
      (world_abc\<lparr>ticks := 9\<rparr>,
       [task_a\<lparr>model := flash, status := COMPLETED, result := Some ''re: a''\<rparr>,
        task_b\<lparr>status := FAILED, error := Some ''Task execution failed: 500 internal''\<rparr>,
        task_c\<lparr>model := flash, status := COMPLETED, result := Some ''re: c''\<rparr>],
       Inr results_abc)" for other
    by (simp only: p if_True parallel_run_mixed)
  have "execute_batch env_mixed [1, 0, 2, 2, 0, 2] orch0 world0 batch_abc =
     Some (orch0\<lparr>active_batches :=
                    (if active_batches orch0 ''batch001'' \<noteq> None
                     then (active_batches orch0)(''batch001'' := None)
                     else active_batches orch0),
                  completed_batches :=
                    (completed_batches orch0)(''batch001'' \<mapsto>
                       \<lparr>batch_id = ''batch001'', completed_tasks = 2, failed_tasks = 1,
                        total_tasks = int 3, results = results_abc, total_time = 9 - 0\<rparr>)\<rparr>,
           world_abc,
           Inr \<lparr>batch_id = ''batch001'', completed_tasks = 2, failed_tasks = 1,
                 total_tasks = int 3, results = results_abc, total_time = 9 - 0\<rparr>)"
    by (simp only: execute_batch_def t sorted_tasks_abc m Let_def prod.case run option.case
        sum.case t' c i)
  then show ?thesis
    by (simp add: batch_result_abc_def orch0_def)
qed

text \<open>
  Claim C3. For every \<open>BatchResult\<close> that \<open>execute_batch\<close> returns, on the sequential and
  on the parallel path and for any schedule, the completed and failed counts add up to
  the total, the total is the number of results, there is one result per task of the
  batch, and every result is \<open>COMPLETED\<close> or \<open>FAILED\<close>. A sequential batch always returns
  one, and a parallel batch does so under some schedule when the concurrency limit is
  positive.
\<close>

theorem execute_batch_tally:
  "(\<forall>sched orch' w' br.
      execute_batch e sched orch w b = Some (orch', w', Inr br) \<longrightarrow>
      completed_tasks br + failed_tasks br = total_tasks br \<and>
      total_tasks br = int (length (results br)) \<and>
      length (results br) = length (tasks b) \<and>
      (\<forall>r\<in>set (results br). status_r r = COMPLETED \<or> status_r r = FAILED)) \<and>
   ((parallel b \<longrightarrow> 0 < max_concurrent orch) \<longrightarrow>
      (\<exists>sched orch' w' br. execute_batch e sched orch w b = Some (orch', w', Inr br)))"
proof -
  have "completed_tasks br + failed_tasks br = total_tasks br \<and>
      total_tasks br = int (length (results br)) \<and>
      length (results br) = length (tasks b) \<and>
      (\<forall>r\<in>set (results br). status_r r = COMPLETED \<or> status_r r = FAILED)"
    if run: "execute_batch e sched orch w b = Some (orch', w', Inr br)" for sched orch' w' br
  proof -
    note facts = execute_batch_returns [OF run]
    have st: "\<forall>r\<in>set (results br). settled r"
      using facts by (auto simp: in_set_conv_nth)
    from tally_settled [OF st] facts st show ?thesis
      by (auto simp: settled_def simp flip: of_nat_add)
  qed
  then show ?thesis
    using execute_batch_fifo_returns [of b orch e w] by blast
qed

theorem execute_batch_tally_witness:
  "execute_batch env_mixed [1, 0, 2, 2, 0, 2] orch0 world0 batch_abc
     = Some (orch0\<lparr>active_batches := Map.empty,
                    completed_batches := [''batch001'' \<mapsto> batch_result_abc]\<rparr>,
             world_abc, Inr batch_result_abc) \<and>
   completed_tasks batch_result_abc = 2 \<and> failed_tasks batch_result_abc = 1 \<and>
   completed_tasks batch_result_abc + failed_tasks batch_result_abc
     = total_tasks batch_result_abc \<and>
   total_tasks batch_result_abc = 3 \<and> length (results batch_result_abc) = 3 \<and>
   0 < max_concurrent orch0 \<and>
   (\<exists>sched orch' w' br.
      execute_batch env_mixed sched orch0 world0 batch_abc = Some (orch', w', Inr br))"
proof -
  have mc: "0 < max_concurrent orch0"
    by (simp add: orch0_def)
  note tally = execute_batch_tally [of env_mixed orch0 world0 batch_abc]
  from tally mc
  have ex: "\<exists>sched orch' w' br.
      execute_batch env_mixed sched orch0 world0 batch_abc = Some (orch', w', Inr br)"
    by blast
  from batch_run_abc tally [THEN conjunct1, rule_format, OF batch_run_abc] mc ex
  show ?thesis
    by (simp add: batch_result_abc_def batch_abc_def)
qed

lemma execute_batch_moved:
  assumes "execute_batch e sched orch w b = Some (orch', w', Inr br)"
  shows "active_batches orch' (id_b b) = None \<and>
         completed_batches orch' (id_b b) = Some br \<and>
         batch_id br = id_b b \<and>
         (\<forall>k. k \<noteq> id_b b \<longrightarrow> active_batches orch' k = active_batches orch k \<and>
                               completed_batches orch' k = completed_batches orch k) \<and>
         get_batch_status orch' (id_b b) =
           Some (CompletedStatus (id_b b) (completed_tasks br) (failed_tasks br)
                   (total_tasks br) (total_time br)) \<and>
         (\<forall>orc k s. get_batch_status orc k = Some s \<longrightarrow>
            (status_entry s = ''active'' \<longleftrightarrow> active_batches orc k \<noteq> None) \<and>
            (status_entry s = ''completed'' \<longleftrightarrow> active_batches orc k = None))"
proof -
  from execute_batch_returns [OF assms]
  have o: "orch' = orch\<lparr>active_batches := (active_batches orch)(id_b b := None),
                         completed_batches := (completed_batches orch)(id_b b \<mapsto> br)\<rparr>"
    and i: "batch_id br = id_b b"
    by simp_all
  have g: "(status_entry s = ''active'' \<longleftrightarrow> active_batches orc k \<noteq> None) \<and>
           (status_entry s = ''completed'' \<longleftrightarrow> active_batches orc k = None)"
    if "get_batch_status orc k = Some s" for orc k s
    using that by (auto simp: get_batch_status_def split: if_splits option.splits)
  show ?thesis
    using g by (simp add: o i get_batch_status_def)
qed

text \<open>
  Claim C5. Whenever \<open>execute_batch\<close> returns a \<open>BatchResult\<close>, under any schedule, the
  identifier of the batch is absent from the active registry and maps to that
  \<open>BatchResult\<close> in the completed registry, no other identifier has changed in either
  registry, and \<open>get_batch_status\<close> reports the batch as completed with the counts of the
  result. A report of \<open>get_batch_status\<close> has one status entry: it says active exactly
  when the identifier is in the active registry and completed exactly when it is not, so
  no identifier is ever reported as both. Such a return happens: a sequential batch
  always returns a \<open>BatchResult\<close>, and a parallel batch does so under some schedule when
  the concurrency limit is positive.
\<close>

theorem execute_batch_moves_identity:
  "(\<forall>sched orch' w' br.
      execute_batch e sched orch w b = Some (orch', w', Inr br) \<longrightarrow>
      active_batches orch' (id_b b) = None \<and>
      completed_batches orch' (id_b b) = Some br \<and>
      batch_id br = id_b b \<and>
      (\<forall>k. k \<noteq> id_b b \<longrightarrow> active_batches orch' k = active_batches orch k \<and>
                            completed_batches orch' k = completed_batches orch k) \<and>
      get_batch_status orch' (id_b b) =
        Some (CompletedStatus (id_b b) (completed_tasks br) (failed_tasks br)
                (total_tasks br) (total_time br)) \<and>
      (\<forall>orc k s. get_batch_status orc k = Some s \<longrightarrow>
         (status_entry s = ''active'' \<longleftrightarrow> active_batches orc k \<noteq> None) \<and>
         (status_entry s = ''completed'' \<longleftrightarrow> active_batches orc k = None))) \<and>
   ((parallel b \<longrightarrow> 0 < max_concurrent orch) \<longrightarrow>
      (\<exists>sched orch' w' br. execute_batch e sched orch w b = Some (orch', w', Inr br)))"
proof (rule conjI)
  show "\<forall>sched orch' w' br.
      execute_batch e sched orch w b = Some (orch', w', Inr br) \<longrightarrow>
      active_batches orch' (id_b b) = None \<and>
      completed_batches orch' (id_b b) = Some br \<and>
      batch_id br = id_b b \<and>
      (\<forall>k. k \<noteq> id_b b \<longrightarrow> active_batches orch' k = active_batches orch k \<and>
                            completed_batches orch' k = completed_batches orch k) \<and>
      get_batch_status orch' (id_b b) =
        Some (CompletedStatus (id_b b) (completed_tasks br) (failed_tasks br)
                (total_tasks br) (total_time br)) \<and>
      (\<forall>orc k s. get_batch_status orc k = Some s \<longrightarrow>
         (status_entry s = ''active'' \<longleftrightarrow> active_batches orc k \<noteq> None) \<and>
         (status_entry s = ''completed'' \<longleftrightarrow> active_batches orc k = None))"
    using execute_batch_moved [of e _ orch w b] by blast
next
  show "(parallel b \<longrightarrow> 0 < max_concurrent orch) \<longrightarrow>
      (\<exists>sched orch' w' br. execute_batch e sched orch w b = Some (orch', w', Inr br))"
    using execute_batch_fifo_returns [of b orch e w] by blast
qed

theorem execute_batch_moves_identity_witness:
  "get_batch_status orch0 ''batch001'' = Some (ActiveStatus ''batch001'' 3 True) \<and>
   (\<exists>orch' w'.
      execute_batch env_mixed [1, 0, 2, 2, 0, 2] orch0 world0 batch_abc
        = Some (orch', w', Inr batch_result_abc) \<and>
      active_batches orch' ''batch001'' = None \<and>
      completed_batches orch' ''batch001'' = Some batch_result_abc \<and>
      get_batch_status orch' ''batch001'' = Some (CompletedStatus ''batch001'' 2 1 3 9)) \<and>
   0 < max_concurrent orch0 \<and>
   (\<exists>sched orch' w' br.
      execute_batch env_mixed sched orch0 world0 batch_abc = Some (orch', w', Inr br) \<and>
      active_batches orch' ''batch001'' = None \<and>
      completed_batches orch' ''batch001'' = Some br)"
proof -
  have a: "get_batch_status orch0 ''batch001'' = Some (ActiveStatus ''batch001'' 3 True)"
    by (simp add: get_batch_status_def orch0_def batch_abc_def)
  have i: "id_b batch_abc = ''batch001''"
    by (simp add: batch_abc_def)
  have mc: "0 < max_concurrent orch0"
    by (simp add: orch0_def)
  note moves = execute_batch_moves_identity [of env_mixed orch0 world0 batch_abc]
  from moves mc obtain sched orch' w' br
    where run: "execute_batch env_mixed sched orch0 world0 batch_abc = Some (orch', w', Inr br)"
    by blast
  from moves run
  have "active_batches orch' ''batch001'' = None \<and> completed_batches orch' ''batch001'' = Some br"
    unfolding i by blast
  with run
  have ex: "\<exists>sched orch' w' br.
      execute_batch env_mixed sched orch0 world0 batch_abc = Some (orch', w', Inr br) \<and>
      active_batches orch' ''batch001'' = None \<and>
      completed_batches orch' ''batch001'' = Some br"
    by blast
  from a batch_run_abc moves [THEN conjunct1, rule_format, OF batch_run_abc] mc ex
  show ?thesis
    by (simp add: i batch_result_abc_def)
qed

lemma index_TaskPriority:
  "index list_TaskPriority LOW = 0" "index list_TaskPriority MEDIUM = 1"
  "index list_TaskPriority HIGH = 2" "index list_TaskPriority URGENT = 3"
  by (simp_all add: list_TaskPriority_def)

lemma index_TaskPriority_inj:
  "index list_TaskPriority p = index list_TaskPriority q \<longleftrightarrow> p = q"
  by (cases p; cases q) (simp_all add: list_TaskPriority_def)

lemma mset_sorted_py [simp]: "mset (sorted_py key rv xs) = mset xs"
  by (simp add: sorted_py_def)

lemma sorted_py_descending:
  "sorted_wrt (\<lambda>x y. key y \<le> key x) (sorted_py key True xs)"
proof -
  have "sorted (map key (sort_key key (rev xs)))" by simp
  then have "sorted_wrt (\<lambda>x y. key x \<le> key y) (sort_key key (rev xs))"
    by (simp add: sorted_wrt_map)
  then have "sorted_wrt (\<lambda>x y. key y \<le> key x) (rev (sort_key key (rev xs)))"
    by (simp add: sorted_wrt_rev)
  then show ?thesis by (simp add: sorted_py_def)
qed

lemma sorted_py_stable:
  "filter (\<lambda>x. key x = k) (sorted_py key True xs) = filter (\<lambda>x. key x = k) xs"
proof -
  have "filter (\<lambda>x. key x = k) (rev (sort_key key (rev xs)))
        = rev (filter (\<lambda>x. key x = k) (sort_key key (rev xs)))"
    by (simp add: rev_filter)
  also have "\<dots> = rev (filter (\<lambda>x. key x = k) (rev xs))"
    by (simp only: sort_key_stable)
  also have "\<dots> = filter (\<lambda>x. key x = k) xs"
    by (simp add: rev_filter)
  finally show ?thesis by (simp add: sorted_py_def)
qed

lemma sorted_tasks_stable:
  "filter (\<lambda>t. priority t = p) (sorted_tasks b) = filter (\<lambda>t. priority t = p) (tasks b)"
  using sorted_py_stable [of "\<lambda>t. index list_TaskPriority (priority t)"
      "index list_TaskPriority p" "tasks b"]
  by (simp add: sorted_tasks_def index_TaskPriority_inj)

lemma mset_sorted_tasks: "mset (sorted_tasks b) = mset (tasks b)"
  by (simp add: sorted_tasks_def)

lemma sorted_tasks_example:
  assumes "map priority ts = [LOW, URGENT, MEDIUM, URGENT]"
  shows "\<exists>t1 t2 t3 t4. ts = [t1, t2, t3, t4] \<and>
           sorted_py (\<lambda>t. index list_TaskPriority (priority t)) True ts = [t2, t4, t3, t1]"
proof -
  from assms obtain t1 t2 t3 t4 where ts: "ts = [t1, t2, t3, t4]"
    and p: "priority t1 = LOW" "priority t2 = URGENT" "priority t3 = MEDIUM" "priority t4 = URGENT"
    by (auto simp: map_eq_Cons_conv)
  show ?thesis
    by (simp add: ts p sorted_py_def index_TaskPriority)
qed

lemma execute_batch_result_ids:
  assumes "execute_batch e sched orch w b = Some (orch', w', Inr br)"
  shows "map task_id (results br) = map id_t (sorted_tasks b)"
  using execute_batch_returns [OF assms]
  by (auto simp: list_eq_iff_nth_eq)

text \<open>
  Claim C2, as stated, fails on its own example. For the priorities
  \<open>[LOW, URGENT, MEDIUM, URGENT]\<close> the sorted list is \<open>[URGENT, URGENT, MEDIUM, LOW]\<close>, not
  \<open>[URGENT, URGENT, LOW, MEDIUM]\<close>: the sort is descending over all four priorities, so
  \<open>MEDIUM\<close> comes before \<open>LOW\<close>, and the sequential path calls the service in that order.
\<close>

theorem execute_batch_priority_order_counterexample:
  "map priority (tasks batch_prio) = [LOW, URGENT, MEDIUM, URGENT] \<and>
   map priority (sorted_tasks batch_prio) = [URGENT, URGENT, MEDIUM, LOW] \<and>
   map priority (sorted_tasks batch_prio) \<noteq> [URGENT, URGENT, LOW, MEDIUM] \<and>
   map snd (calls (fst (execute_tasks_sequential env_flash_only world0 (sorted_tasks batch_prio))))
     = [''urgent 1'', ''urgent 2'', ''medium'', ''low'']"
proof -
  have s: "sorted_tasks batch_prio = [task_urgent1, task_urgent2, task_medium, task_low]"
    by (simp add: sorted_tasks_def sorted_py_def batch_prio_def index_TaskPriority
        task_low_def task_urgent1_def task_medium_def task_urgent2_def)
  have c: "map snd (calls (fst (execute_tasks_sequential env_flash_only world0
              [task_urgent1, task_urgent2, task_medium, task_low])))
           = [''urgent 1'', ''urgent 2'', ''medium'', ''low'']"
    by code_simp
  show ?thesis
    unfolding s using c
    by (simp add: batch_prio_def task_low_def task_urgent1_def task_medium_def task_urgent2_def)
qed

text \<open>
  Claim C2, amended. \<open>execute_batch\<close> hands the tasks to the client sorted by priority,
  descending in the rank \<open>LOW < MEDIUM < HIGH < URGENT\<close>: the sorted list is a permutation
  of the tasks of the batch, no task is followed by one of higher rank, and the tasks of
  each priority keep their original relative order. The results of a returning
  \<open>execute_batch\<close> follow that order. For the priorities \<open>[LOW, URGENT, MEDIUM, URGENT]\<close>
  the order is second, fourth, third, first task: \<open>[URGENT, URGENT, MEDIUM, LOW]\<close>.
\<close>

theorem execute_batch_priority_order:
  "mset (sorted_tasks b) = mset (tasks b) \<and>
   map (index list_TaskPriority) [LOW, MEDIUM, HIGH, URGENT] = [0, 1, 2, 3] \<and>
   sorted_wrt (\<lambda>s t. index list_TaskPriority (priority t) \<le> index list_TaskPriority (priority s))
     (sorted_tasks b) \<and>
   (\<forall>p. filter (\<lambda>t. priority t = p) (sorted_tasks b) = filter (\<lambda>t. priority t = p) (tasks b)) \<and>
   (\<forall>e sched orch w orch' w' br.
      execute_batch e sched orch w b = Some (orch', w', Inr br) \<longrightarrow>
      map task_id (results br) = map id_t (sorted_tasks b)) \<and>
   (map priority (tasks b) = [LOW, URGENT, MEDIUM, URGENT] \<longrightarrow>
      map priority (sorted_tasks b) = [URGENT, URGENT, MEDIUM, LOW] \<and>
      (\<exists>t1 t2 t3 t4. tasks b = [t1, t2, t3, t4] \<and> sorted_tasks b = [t2, t4, t3, t1]))"
proof -
  have ex: "map priority (sorted_tasks b) = [URGENT, URGENT, MEDIUM, LOW] \<and>
      (\<exists>t1 t2 t3 t4. tasks b = [t1, t2, t3, t4] \<and> sorted_tasks b = [t2, t4, t3, t1])"
    if h: "map priority (tasks b) = [LOW, URGENT, MEDIUM, URGENT]"
  proof -
    from sorted_tasks_example [OF h] obtain t1 t2 t3 t4
      where t: "tasks b = [t1, t2, t3, t4]" and s: "sorted_tasks b = [t2, t4, t3, t1]"
      by (auto simp: sorted_tasks_def)
    from h t s show ?thesis by simp
  qed
  show ?thesis
    using ex mset_sorted_tasks [of b] sorted_tasks_stable [of _ b]
      execute_batch_result_ids [of _ _ _ _ b]
      sorted_py_descending [of "\<lambda>t. index list_TaskPriority (priority t)" "tasks b"]
    by (simp add: index_TaskPriority sorted_tasks_def [symmetric])
qed


theorem execute_batch_priority_order_witness:
  "map priority (tasks batch_prio) = [LOW, URGENT, MEDIUM, URGENT] \<and>
   map priority (sorted_tasks batch_prio) = [URGENT, URGENT, MEDIUM, LOW] \<and>
   (\<exists>orch' w' br.
      execute_batch env_flash_only [] orch0 world0 batch_prio = Some (orch', w', Inr br) \<and>
      map task_id (results br) = [''t-urg001'', ''t-urg002'', ''t-med000'', ''t-low000''])"
proof -
  have p: "map priority (tasks batch_prio) = [LOW, URGENT, MEDIUM, URGENT]"
    by (simp add: batch_prio_def task_low_def task_urgent1_def task_medium_def task_urgent2_def)
  have "\<not> parallel batch_prio"
    by (simp add: batch_prio_def)
  from execute_batch_sequential_returns [OF this] obtain orch' w' br
    where run: "execute_batch env_flash_only [] orch0 world0 batch_prio = Some (orch', w', Inr br)"
    by blast
  note order = execute_batch_priority_order [of batch_prio]
  from order p have s: "map priority (sorted_tasks batch_prio) = [URGENT, URGENT, MEDIUM, LOW]"
    and "\<exists>t1 t2 t3 t4. tasks batch_prio = [t1, t2, t3, t4] \<and> sorted_tasks batch_prio = [t2, t4, t3, t1]"
    by blast+
  then have st: "sorted_tasks batch_prio = [task_urgent1, task_urgent2, task_medium, task_low]"
    by (auto simp: batch_prio_def)
  from order run have "map task_id (results br) = map id_t (sorted_tasks batch_prio)"
    by blast
  then have "map task_id (results br) = [''t-urg001'', ''t-urg002'', ''t-med000'', ''t-low000'']"
    by (simp add: st task_low_def task_urgent1_def task_medium_def task_urgent2_def)
  with p s run show ?thesis by simp
qed

lemma create_tasks_eq:
  "create_tasks e w ps m ctx =
     (map (\<lambda>(i, p). \<lparr>id_t = take 8 (uuid4 e i), prompt = p, model = m, priority = MEDIUM,
                       status = PENDING, result = None, error = None, context_t = ctx\<rparr>)
          (enumerate (uuids w) ps),
      w\<lparr>uuids := uuids w + length ps\<rparr>)"
  by (induction ps arbitrary: w) (simp_all add: create_task_def str_uuid4_def)

lemma create_batch_eq:
  "create_batch e orch w ts par =
     (\<lparr>id_b = take 8 (uuid4 e (uuids w)), tasks = ts, parallel = par\<rparr>,
      orch\<lparr>active_batches := (active_batches orch)
               (take 8 (uuid4 e (uuids w)) \<mapsto>
                  \<lparr>id_b = take 8 (uuid4 e (uuids w)), tasks = ts, parallel = par\<rparr>)\<rparr>,
      w\<lparr>uuids := Suc (uuids w)\<rparr>)"
  by (simp add: create_batch_def str_uuid4_def Let_def)

lemma collect_results_find:
  "collect_results rs acc =
     (case find (\<lambda>r. status_r r \<noteq> COMPLETED) rs of
        None \<Rightarrow> Inr (acc @ map result_r rs)
      | Some r \<Rightarrow> Inl (Exception (''Task '' @ task_id r @ '' failed: '' @ fmt_opt (error_r r))))"
  by (induction rs arbitrary: acc) (simp_all split: option.splits)

lemma find_failed_settled:
  "\<forall>r\<in>set rs. settled r \<Longrightarrow>
   find (\<lambda>r. status_r r \<noteq> COMPLETED) rs = find (\<lambda>r. status_r r = FAILED) rs"
  by (induction rs) (auto simp: settled_def)

lemma execute_batch_no_raise:
  assumes "0 \<le> max_concurrent orch"
  shows "execute_batch e sched orch w b \<noteq> Some (orch', w', Inl ex)"
  using assms
  by (auto simp: execute_batch_def execute_tasks_parallel_def Let_def
      split: prod.splits option.splits sum.splits if_splits)

lemma parallel_ask_run:
  assumes "fst (create_tasks e w prompts m ctx) = ts"
    and "take 8 (uuid4 e (uuids w + length prompts)) = bid"
    and "sorted_tasks \<lparr>id_b = bid, tasks = ts, parallel = True\<rparr> = srt"
    and "execute_tasks_parallel e sched
           (w\<lparr>uuids := Suc (uuids w + length prompts), ticks := Suc (ticks w)\<rparr>)
           srt (max_concurrent orch) = Some (w2, ts', Inr rs)"
  shows "\<exists>orch' br. parallel_ask e sched orch w prompts m ctx
                      = Some (orch', w2\<lparr>ticks := Suc (ticks w2)\<rparr>, collect_results rs []) \<and>
                    completed_batches orch' bid = Some br \<and> results br = rs"
proof -
  have ct: "create_tasks e w prompts m ctx = (ts, w\<lparr>uuids := uuids w + length prompts\<rparr>)"
    using assms(1) by (simp add: create_tasks_eq)
  have cb: "create_batch e orch (w\<lparr>uuids := uuids w + length prompts\<rparr>) ts True =
      (\<lparr>id_b = bid, tasks = ts, parallel = True\<rparr>,
       orch\<lparr>active_batches := (active_batches orch)
                (bid \<mapsto> \<lparr>id_b = bid, tasks = ts, parallel = True\<rparr>)\<rparr>,
       w\<lparr>uuids := Suc (uuids w + length prompts)\<rparr>)"
    using assms(2) by (simp add: create_batch_eq)
  show ?thesis
    by (simp add: parallel_ask_def ct cb execute_batch_def time_time_def assms(3) assms(4) Let_def
        split: prod.splits)
qed

lemma parallel_run_ask3:
  "execute_tasks_parallel env_mixed [0, 1, 2, 0, 2, 2]
       \<lparr>uuids = 4, ticks = 1, calls = [], models = {}\<rparr>
       [task_ask ''11111111'' ''a'', task_ask ''22222222'' ''b'', task_ask ''33333333'' ''c''] 2 =
     Some
      (\<lparr>uuids = 4, ticks = 9,
          calls = [(''gemini-2.5-pro'', ''a''), (''gemini-2.5-pro'', ''b''), (flash, ''a''),
                   (''gemini-2.5-pro'', ''c''), (flash, ''c'')],
          models = {flash, ''gemini-2.5-pro''}\<rparr>,
       [(task_ask ''11111111'' ''a'')\<lparr>model := flash, status := COMPLETED, result := Some ''re: a''\<rparr>,
        (task_ask ''22222222'' ''b'')\<lparr>status := FAILED,
           error := Some ''Task execution failed: 500 internal''\<rparr>,
        (task_ask ''33333333'' ''c'')\<lparr>model := flash, status := COMPLETED, result := Some ''re: c''\<rparr>],
       Inr results_ask3)"
  by code_simp

lemma parallel_run_ask2:
  "execute_tasks_parallel env_mixed [0, 1, 0, 1]
       \<lparr>uuids = 3, ticks = 1, calls = [], models = {}\<rparr>
       [task_ask ''11111111'' ''a'', task_ask ''22222222'' ''c''] 2 =
     Some
      (\<lparr>uuids = 3, ticks = 7,
          calls = [(''gemini-2.5-pro'', ''a''), (''gemini-2.5-pro'', ''c''), (flash, ''a''),
                   (flash, ''c'')],
          models = {flash, ''gemini-2.5-pro''}\<rparr>,
       [(task_ask ''11111111'' ''a'')\<lparr>model := flash, status := COMPLETED, result := Some ''re: a''\<rparr>,
        (task_ask ''22222222'' ''c'')\<lparr>model := flash, status := COMPLETED, result := Some ''re: c''\<rparr>],
       Inr results_ask2)"
  by code_simp

lemma parallel_ask_outcome:
  assumes "parallel_ask e sched orch w prompts m ctx = Some (orch', w', res)"
    and "0 \<le> max_concurrent orch"
  shows "\<exists>br. completed_batches orch' (take 8 (uuid4 e (uuids w + length prompts))) = Some br \<and>
           length (results br) = length prompts \<and>
           (case find (\<lambda>r. status_r r = FAILED) (results br) of
              Some r \<Rightarrow>
                \<exists>msg. error_r r = Some msg \<and>
                      res = Inl (Exception (''Task '' @ task_id r @ '' failed: '' @ msg))
            | None \<Rightarrow>
                (\<forall>r\<in>set (results br). status_r r = COMPLETED \<and> result_r r \<noteq> None) \<and>
                res = Inr (map result_r (results br)))"
proof -
  let ?ts = "map (\<lambda>(i, p). \<lparr>id_t = take 8 (uuid4 e i), prompt = p, model = m,
                       priority = MEDIUM, status = PENDING, result = None, error = None,
                       context_t = ctx\<rparr>)
                 (enumerate (uuids w) prompts)"
  let ?w1 = "w\<lparr>uuids := uuids w + length prompts\<rparr>"
  let ?bid = "take 8 (uuid4 e (uuids w + length prompts))"
  let ?batch = "\<lparr>id_b = ?bid, tasks = ?ts, parallel = True\<rparr>"
  let ?orch1 = "orch\<lparr>active_batches := (active_batches orch)(?bid \<mapsto> ?batch)\<rparr>"
  let ?w2 = "?w1\<lparr>uuids := Suc (uuids ?w1)\<rparr>"
  have ct: "create_tasks e w prompts m ctx = (?ts, ?w1)"
    by (simp add: create_tasks_eq)
  have len: "length ?ts = length prompts"
    by simp
  have cb: "create_batch e orch ?w1 ?ts True = (?batch, ?orch1, ?w2)"
    by (simp add: create_batch_eq)
  have pa: "parallel_ask e sched orch w prompts m ctx =
     (case execute_batch e sched ?orch1 ?w2 ?batch of
        None \<Rightarrow> None
      | Some (orch2, w3, Inl ex) \<Rightarrow> Some (orch2, w3, Inl ex)
      | Some (orch2, w3, Inr batch_result) \<Rightarrow>
          Some (orch2, w3, collect_results (results batch_result) []))"
    by (simp only: parallel_ask_def ct cb Let_def prod.case)
  have mc: "0 \<le> max_concurrent ?orch1"
    using assms(2) by simp
  from assms(1) pa execute_batch_no_raise [OF mc] obtain br
    where run: "execute_batch e sched ?orch1 ?w2 ?batch = Some (orch', w', Inr br)"
      and res: "res = collect_results (results br) []"
    by (auto split: option.splits sum.splits prod.splits)
  note facts = execute_batch_returns [OF run]
  have st: "\<forall>r\<in>set (results br). settled r"
    using facts by (auto simp: in_set_conv_nth)
  have cmp: "completed_batches orch' ?bid = Some br"
    using facts by simp
  have l: "length (results br) = length prompts"
    using facts len by simp
  have r: "res = (case find (\<lambda>r. status_r r = FAILED) (results br) of
        None \<Rightarrow> Inr (map result_r (results br))
      | Some r \<Rightarrow> Inl (Exception (''Task '' @ task_id r @ '' failed: '' @ fmt_opt (error_r r))))"
    unfolding res collect_results_find find_failed_settled [OF st] append_Nil ..
  show ?thesis
  proof (cases "find (\<lambda>r. status_r r = FAILED) (results br)")
    case None
    then have "\<forall>r\<in>set (results br). status_r r \<noteq> FAILED"
      by (simp add: find_None_iff)
    with st have "\<forall>r\<in>set (results br). status_r r = COMPLETED \<and> result_r r \<noteq> None"
      by (auto simp: settled_def)
    with None r cmp l show ?thesis by simp
  next
    case (Some x)
    then have "x \<in> set (results br)" "status_r x = FAILED"
      by (auto simp: find_Some_iff)
    with st obtain msg where "error_r x = Some msg"
      by (auto simp: settled_def)
    with Some r cmp l show ?thesis by simp
  qed
qed

lemma parallel_ask_fifo_returns:
  assumes "0 < max_concurrent orch"
  shows "\<exists>orch' w' res. parallel_ask e (fifo_schedule (length prompts)) orch w prompts m ctx
                          = Some (orch', w', res)"
proof -
  let ?ts = "map (\<lambda>(i, p). \<lparr>id_t = take 8 (uuid4 e i), prompt = p, model = m,
                       priority = MEDIUM, status = PENDING, result = None, error = None,
                       context_t = ctx\<rparr>)
                 (enumerate (uuids w) prompts)"
  let ?w1 = "w\<lparr>uuids := uuids w + length prompts\<rparr>"
  let ?bid = "take 8 (uuid4 e (uuids w + length prompts))"
  let ?batch = "\<lparr>id_b = ?bid, tasks = ?ts, parallel = True\<rparr>"
  let ?orch1 = "orch\<lparr>active_batches := (active_batches orch)(?bid \<mapsto> ?batch)\<rparr>"
  let ?w2 = "?w1\<lparr>uuids := Suc (uuids ?w1)\<rparr>"
  have ct: "create_tasks e w prompts m ctx = (?ts, ?w1)"
    by (simp add: create_tasks_eq)
  have cb: "create_batch e orch ?w1 ?ts True = (?batch, ?orch1, ?w2)"
    by (simp add: create_batch_eq)
  have pa: "parallel_ask e sched orch w prompts m ctx =
     (case execute_batch e sched ?orch1 ?w2 ?batch of
        None \<Rightarrow> None
      | Some (orch2, w3, Inl ex) \<Rightarrow> Some (orch2, w3, Inl ex)
      | Some (orch2, w3, Inr batch_result) \<Rightarrow>
          Some (orch2, w3, collect_results (results batch_result) []))" for sched
    by (simp only: parallel_ask_def ct cb Let_def prod.case)
  have "parallel ?batch \<longrightarrow> 0 < max_concurrent ?orch1"
    using assms by simp
  from execute_batch_fifo_returns [OF this, of e ?w2] obtain orch' w' br
    where "execute_batch e (fifo_schedule (length prompts)) ?orch1 ?w2 ?batch
             = Some (orch', w', Inr br)"
    by auto
  then show ?thesis
    by (simp add: pa)
qed

text \<open>
  Claim C7. Whenever \<open>parallel_ask\<close> comes back (by returning or by raising), under any
  schedule and with a concurrency limit that is not negative, its batch has been executed
  and stored in the completed registry, with one result per prompt. If some result is
  \<open>FAILED\<close>, \<open>parallel_ask\<close> raises an exception whose text names the identifier and the
  error text of the first \<open>FAILED\<close> result in the order of the batch results, and no list
  is returned. If none is, every result is \<open>COMPLETED\<close> with a result text and
  \<open>parallel_ask\<close> returns the result texts in the order of the batch results. With a
  positive concurrency limit \<open>parallel_ask\<close> does come back under some schedule, for every
  list of prompts and every environment.
\<close>

theorem parallel_ask_all_or_nothing:
  "(\<forall>sched orch' w' res.
      parallel_ask e sched orch w prompts m ctx = Some (orch', w', res) \<longrightarrow>
      0 \<le> max_concurrent orch \<longrightarrow>
        (\<exists>br. completed_batches orch' (take 8 (uuid4 e (uuids w + length prompts))) = Some br \<and>
           length (results br) = length prompts \<and>
           (case find (\<lambda>r. status_r r = FAILED) (results br) of
              Some r \<Rightarrow>
                \<exists>msg. error_r r = Some msg \<and>
                      res = Inl (Exception (''Task '' @ task_id r @ '' failed: '' @ msg))
            | None \<Rightarrow>
                (\<forall>r\<in>set (results br). status_r r = COMPLETED \<and> result_r r \<noteq> None) \<and>
                res = Inr (map result_r (results br))))) \<and>
   (0 < max_concurrent orch \<longrightarrow>
      (\<exists>sched orch' w' res. parallel_ask e sched orch w prompts m ctx = Some (orch', w', res)))"
proof (rule conjI)
  show "0 < max_concurrent orch \<longrightarrow>
      (\<exists>sched orch' w' res. parallel_ask e sched orch w prompts m ctx = Some (orch', w', res))"
    using parallel_ask_fifo_returns [of orch e prompts w m ctx] by blast
qed (use parallel_ask_outcome [of e _ orch w prompts m ctx] in blast)

theorem parallel_ask_all_or_nothing_witness:
  "0 \<le> max_concurrent orch0 \<and>
   (\<exists>orch' w' br.
      parallel_ask env_mixed [0, 1, 2, 0, 2, 2] orch0 world0 [''a'', ''b'', ''c'']
          ''gemini-2.5-pro'' None
        = Some (orch', w',
                Inl (Exception ''Task 22222222 failed: Task execution failed: 500 internal'')) \<and>
      completed_batches orch' ''44444444'' = Some br \<and>
      map status_r (results br) = [COMPLETED, FAILED, COMPLETED]) \<and>
   (\<exists>orch' w' br.
      parallel_ask env_mixed [0, 1, 0, 1] orch0 world0 [''a'', ''c''] ''gemini-2.5-pro'' None
        = Some (orch', w', Inr [Some ''re: a'', Some ''re: c'']) \<and>
      completed_batches orch' ''33333333'' = Some br \<and>
      map status_r (results br) = [COMPLETED, COMPLETED]) \<and>
   0 < max_concurrent orch0 \<and>
   (\<exists>sched orch' w' res.
      parallel_ask env_mixed sched orch0 world0 [''a'', ''b'', ''c''] ''gemini-2.5-pro'' None
        = Some (orch', w', res))"
proof -
  have pos: "0 < max_concurrent orch0"
    by (simp add: orch0_def)
  from parallel_ask_all_or_nothing
      [of env_mixed orch0 world0 "[''a'', ''b'', ''c'']" "''gemini-2.5-pro''" None,
       THEN conjunct2] pos
  have ex: "\<exists>sched orch' w' res.
      parallel_ask env_mixed sched orch0 world0 [''a'', ''b'', ''c''] ''gemini-2.5-pro'' None
        = Some (orch', w', res)"
    by blast
  have mc: "0 \<le> max_concurrent orch0" and mc2: "max_concurrent orch0 = 2"
    by (simp_all add: orch0_def)
  have u: "uuids world0 = 0" "ticks world0 = 0"
    by (simp_all add: world0_def)
  have w1: "world0\<lparr>uuids := Suc (uuids world0 + length [''a'', ''b'', ''c'']),
                    ticks := Suc (ticks world0)\<rparr>
            = \<lparr>uuids = 4, ticks = 1, calls = [], models = {}\<rparr>"
    and w2: "world0\<lparr>uuids := Suc (uuids world0 + length [''a'', ''c'']),
                    ticks := Suc (ticks world0)\<rparr>
            = \<lparr>uuids = 3, ticks = 1, calls = [], models = {}\<rparr>"
    by (simp_all add: world0_def)
  have c3: "fst (create_tasks env_mixed world0 [''a'', ''b'', ''c''] ''gemini-2.5-pro'' None)
            = [task_ask ''11111111'' ''a'', task_ask ''22222222'' ''b'',
               task_ask ''33333333'' ''c'']"
    and c2: "fst (create_tasks env_mixed world0 [''a'', ''c''] ''gemini-2.5-pro'' None)
            = [task_ask ''11111111'' ''a'', task_ask ''22222222'' ''c'']"
    by (simp_all add: create_task_def str_uuid4_def env_mixed_def world0_def task_ask_def)
  have b3: "take 8 (uuid4 env_mixed (uuids world0 + length [''a'', ''b'', ''c''])) = ''44444444''"
    and b2: "take 8 (uuid4 env_mixed (uuids world0 + length [''a'', ''c''])) = ''33333333''"
    by (simp_all add: env_mixed_def world0_def)
  have s3: "sorted_tasks \<lparr>id_b = ''44444444'',
                tasks = [task_ask ''11111111'' ''a'', task_ask ''22222222'' ''b'',
                         task_ask ''33333333'' ''c''], parallel = True\<rparr>
            = [task_ask ''11111111'' ''a'', task_ask ''22222222'' ''b'',
               task_ask ''33333333'' ''c'']"
    and s2: "sorted_tasks \<lparr>id_b = ''33333333'',
                tasks = [task_ask ''11111111'' ''a'', task_ask ''22222222'' ''c''],
                parallel = True\<rparr>
            = [task_ask ''11111111'' ''a'', task_ask ''22222222'' ''c'']"
    by (simp_all add: sorted_tasks_def sorted_py_def task_ask_def list_TaskPriority_def)
  from parallel_ask_run [OF c3 b3 s3, of "[0, 1, 2, 0, 2, 2]" orch0]
    parallel_run_ask3 [folded w1 mc2]
  obtain o3 br3 w3
    where r3: "parallel_ask env_mixed [0, 1, 2, 0, 2, 2] orch0 world0 [''a'', ''b'', ''c'']
                 ''gemini-2.5-pro'' None = Some (o3, w3, collect_results results_ask3 [])"
      and k3: "completed_batches o3 ''44444444'' = Some br3" "results br3 = results_ask3"
    by blast
  from parallel_ask_run [OF c2 b2 s2, of "[0, 1, 0, 1]" orch0]
    parallel_run_ask2 [folded w2 mc2]
  obtain o2 br2 w2'
    where r2: "parallel_ask env_mixed [0, 1, 0, 1] orch0 world0 [''a'', ''c'']
                 ''gemini-2.5-pro'' None = Some (o2, w2', collect_results results_ask2 [])"
      and k2: "completed_batches o2 ''33333333'' = Some br2" "results br2 = results_ask2"
    by blast
  note t3 = parallel_ask_all_or_nothing [THEN conjunct1, rule_format, OF r3 mc]
  note t2 = parallel_ask_all_or_nothing [THEN conjunct1, rule_format, OF r2 mc]
  have e3: "collect_results results_ask3 []
            = Inl (Exception ''Task 22222222 failed: Task execution failed: 500 internal'')"
    using t3 k3 by (simp add: u results_ask3_def env_mixed_def)
  have e2: "collect_results results_ask2 [] = Inr [Some ''re: a'', Some ''re: c'']"
    using t2 k2 by (simp add: u results_ask2_def env_mixed_def)
  have m3: "map status_r (results br3) = [COMPLETED, FAILED, COMPLETED]"
    and m2: "map status_r (results br2) = [COMPLETED, COMPLETED]"
    by (simp_all add: k3 k2 results_ask3_def results_ask2_def)
  from mc r3 r2 e3 e2 k3(1) k2(1) m3 m2 pos ex show ?thesis
    by auto
qed

text \<open>
  Claim C8. \<open>quick_ask\<close> creates one task with a fresh identifier and the default
  priority, executes it with \<open>execute_task\<close>, and leaves the orchestrator as it was: no
  batch is registered. If the result is \<open>COMPLETED\<close> it returns the result text, which is
  the answer of the last remote call; otherwise the result is \<open>FAILED\<close> and it raises an
  exception \<open>Task failed:\<close> followed by the error text of the task.
\<close>

theorem quick_ask_result:
  "\<exists>w1 task1 r res.
     execute_task e (w\<lparr>uuids := Suc (uuids w)\<rparr>)
       \<lparr>id_t = take 8 (uuid4 e (uuids w)), prompt = p, model = m, priority = MEDIUM,
        status = PENDING, result = None, error = None, context_t = ctx\<rparr> = (w1, task1, r) \<and>
     quick_ask e orch w p m ctx = (orch, w1, res) \<and>
     (status_r r = COMPLETED \<longrightarrow>
        (\<exists>reply. remote e (calls w1) = Inr reply \<and> result_r r = Some reply \<and>
                 res = Inr (Some reply))) \<and>
     (status_r r \<noteq> COMPLETED \<longrightarrow>
        status_r r = FAILED \<and>
        (\<exists>msg. error_r r = Some msg \<and> error task1 = Some msg \<and>
               res = Inl (Exception (''Task failed: '' @ msg))))"
proof -
  let ?task = "\<lparr>id_t = take 8 (uuid4 e (uuids w)), prompt = p, model = m, priority = MEDIUM,
        status = PENDING, result = None, error = None, context_t = ctx\<rparr>"
  let ?w0 = "w\<lparr>uuids := Suc (uuids w)\<rparr>"
  obtain w1 task1 r where ex: "execute_task e ?w0 ?task = (w1, task1, r)"
    by (cases "execute_task e ?w0 ?task") auto
  have q: "quick_ask e orch w p m ctx =
      (orch, w1, if status_r r = COMPLETED then Inr (result_r r)
                 else Inl (Exception (''Task failed: '' @ fmt_opt (error_r r))))"
    by (simp add: quick_ask_def create_task_def str_uuid4_def execute_single_task_def ex Let_def)
  from execute_task_final [where e = e and w = ?w0 and task = ?task] ex
  show ?thesis
    by (cases "remote e (calls w1)") (auto simp: q)
qed

theorem quick_ask_result_witness:
  "quick_ask env_flash_only orch0 world0 ''2+2?'' flash None
     = (orch0, \<lparr>uuids = 1, ticks = 2, calls = [(flash, ''2+2?'')], models = {flash}\<rparr>,
        Inr (Some ''pong'')) \<and>
   quick_ask env_broken orch0 world0 ''2+2?'' flash None
     = (orch0, \<lparr>uuids = 1, ticks = 2, calls = [(flash, ''2+2?'')], models = {flash}\<rparr>,
        Inl (Exception ''Task failed: Task execution failed: 503 unavailable''))"
proof -
  have a: "execute_task env_flash_only (world0\<lparr>uuids := Suc (uuids world0)\<rparr>)
       \<lparr>id_t = take 8 (uuid4 env_flash_only (uuids world0)), prompt = ''2+2?'', model = flash,
        priority = MEDIUM, status = PENDING, result = None, error = None, context_t = None\<rparr>
     = (\<lparr>uuids = 1, ticks = 2, calls = [(flash, ''2+2?'')], models = {flash}\<rparr>,
        \<lparr>id_t = ''00000000'', prompt = ''2+2?'', model = flash, priority = MEDIUM,
         status = COMPLETED, result = Some ''pong'', error = None, context_t = None\<rparr>,
        \<lparr>task_id = ''00000000'', status_r = COMPLETED, result_r = Some ''pong'',
         error_r = None, execution_time = Some 1\<rparr>)"
    by (simp add: execute_task.simps env_flash_only_def world0_def time_time_def try_body_def
        get_model_def generate_content_def build_prompt_def Let_def)
  have b: "execute_task env_broken (world0\<lparr>uuids := Suc (uuids world0)\<rparr>)
       \<lparr>id_t = take 8 (uuid4 env_broken (uuids world0)), prompt = ''2+2?'', model = flash,
        priority = MEDIUM, status = PENDING, result = None, error = None, context_t = None\<rparr>
     = (\<lparr>uuids = 1, ticks = 2, calls = [(flash, ''2+2?'')], models = {flash}\<rparr>,
        \<lparr>id_t = ''00000000'', prompt = ''2+2?'', model = flash, priority = MEDIUM,
         status = FAILED, result = None,
         error = Some ''Task execution failed: 503 unavailable'', context_t = None\<rparr>,
        \<lparr>task_id = ''00000000'', status_r = FAILED, result_r = None,
         error_r = Some ''Task execution failed: 503 unavailable'',
         execution_time = Some 1\<rparr>)"
    by (simp add: execute_task.simps env_broken_def world0_def time_time_def try_body_def
        get_model_def generate_content_def build_prompt_def Let_def)
  from quick_ask_result [of env_flash_only world0 "''2+2?''" flash None orch0]
    quick_ask_result [of env_broken world0 "''2+2?''" flash None orch0]
  show ?thesis
    unfolding a b by auto
qed

end
